theory Spec2Isabelle
  imports Complex_Main "HOL-Library.Product_Lexorder"
begin

section \<open>Outline extraction (Challenge\_1a/process\_pdfs.py)\<close>

subsection \<open>Characters and strings\<close>

text \<open>
  A character is a code point from 0 to 255 (Latin-1), and a string a list of characters;
  text with other code points is outside the model. The classes are those of Python on
  this range.
\<close>

text \<open>
  \<open>str.isspace\<close>, which is also the class \<open>\s\<close> and what \<open>str.strip\<close> removes: the ASCII
  white space, the separators U+001C to U+001F, U+0085 and U+00A0.
\<close>

definition is_space :: "char \<Rightarrow> bool" where
  "is_space c =
     (let n = (of_char c :: nat)
      in (9 \<le> n \<and> n \<le> 13) \<or> (28 \<le> n \<and> n \<le> 32) \<or> n = 133 \<or> n = 160)"

text \<open>The class \<open>\d\<close>: the decimal digits.\<close>

definition is_digit :: "char \<Rightarrow> bool" where
  "is_digit c = (let n = (of_char c :: nat) in 48 \<le> n \<and> n \<le> 57)"

text \<open>
  \<open>str.isupper\<close> and \<open>str.islower\<close> of one character: the letters A to Z and U+00C0 to
  U+00DE without the sign U+00D7; the letters a to z, U+00DF to U+00FF without the sign
  U+00F7, and the three lower-case characters U+00AA, U+00B5 and U+00BA.
\<close>

definition is_upper :: "char \<Rightarrow> bool" where
  "is_upper c =
     (let n = (of_char c :: nat)
      in (65 \<le> n \<and> n \<le> 90) \<or> (192 \<le> n \<and> n \<le> 222 \<and> n \<noteq> 215))"

definition is_lower :: "char \<Rightarrow> bool" where
  "is_lower c =
     (let n = (of_char c :: nat)
      in (97 \<le> n \<and> n \<le> 122) \<or> (223 \<le> n \<and> n \<noteq> 247) \<or> n = 170 \<or> n = 181 \<or> n = 186)"

text \<open>
  The class \<open>\w\<close>: the alphanumeric characters (\<open>str.isalnum\<close>) and the underscore. Beside
  the letters these are the digits, the superscript digits U+00B2, U+00B3 and U+00B9,
  and the fractions U+00BC to U+00BE.
\<close>

definition is_word :: "char \<Rightarrow> bool" where
  "is_word c =
     (let n = (of_char c :: nat)
      in is_digit c \<or> is_upper c \<or> is_lower c \<or> c = CHR ''_''
         \<or> n = 178 \<or> n = 179 \<or> n = 185 \<or> (188 \<le> n \<and> n \<le> 190))"

text \<open>\<open>s.strip()\<close>: whitespace removed at both ends.\<close>

definition strip :: "string \<Rightarrow> string" where
  "strip s = rev (dropWhile is_space (rev (dropWhile is_space s)))"

text \<open>\<open>' '.join(parts)\<close>.\<close>

fun join_space :: "string list \<Rightarrow> string" where
  "join_space [] = []"
| "join_space [p] = p"
| "join_space (p # q # ps) = p @ CHR '' '' # join_space (q # ps)"

text \<open>\<open>sub in s\<close> for strings: \<open>sub\<close> occurs as a contiguous piece of \<open>s\<close>.\<close>

fun starts_with :: "string \<Rightarrow> string \<Rightarrow> bool" where
  "starts_with [] s = True"
| "starts_with (a # as) [] = False"
| "starts_with (a # as) (c # cs) = (a = c \<and> starts_with as cs)"

fun contains :: "string \<Rightarrow> string \<Rightarrow> bool" where
  "contains sub [] = (sub = [])"
| "contains sub (c # cs) = (starts_with sub (c # cs) \<or> contains sub cs)"

subsection \<open>Floating-point arithmetic\<close>

text \<open>
  Python's \<open>float\<close> and numpy's \<open>float64\<close> are IEEE 754 binary64. A finite value is modelled
  by the real number it denotes, and an arithmetic result is the exact result rounded to
  the nearest value with 53 significant bits, an exact tie going to the even one.
\<close>

text \<open>The nearest integer, an exact tie going to the even one.\<close>

definition round_half_even :: "real \<Rightarrow> int" where
  "round_half_even t =
     (let f = \<lfloor>t\<rfloor>; d = t - of_int f
      in if d < 1 / 2 then f else if 1 / 2 < d then f + 1 else if even f then f else f + 1)"

text \<open>
  For \<open>x > 0\<close>, the exponent \<open>e\<close> with \<open>2 ^ e \<le> x < 2 ^ (e + 1)\<close>, found by halving or
  doubling at most \<open>fuel\<close> times.
\<close>

fun binade :: "nat \<Rightarrow> real \<Rightarrow> int" where
  "binade 0 x = 0"
| "binade (Suc fuel) x =
     (if 2 \<le> x then binade fuel (x / 2) + 1
      else if x < 1 then binade fuel (x * 2) - 1
      else 0)"

text \<open>
  The rounding of an exact result \<open>x\<close> to binary64. The spacing of the values around \<open>x\<close>
  is \<open>2 ^ (e - 52)\<close>, where \<open>e\<close> is the exponent of \<open>x\<close> and at least -1022 (below that the
  values are subnormal and equally spaced). A result that rounds to \<open>2 ^ 1024\<close> or beyond
  overflows to an infinity, for which the value \<open>2 ^ 1024\<close> with the sign stands: it is
  above every finite value and equal to itself, as the infinity is. Rounding reaches
  \<open>2 ^ 1024\<close> only from the exponent 1023, so the bound is compared only there. The fuel
  covers every exponent from -1022 to 1024.
\<close>

definition fl64 :: "real \<Rightarrow> real" where
  "fl64 x =
     (if x = 0 then 0
      else
        let e0 = binade 1100 \<bar>x\<bar>;
            e = max e0 (- 1022);
            q = (if 52 \<le> e then 2 ^ nat (e - 52) else 1 / 2 ^ nat (52 - e));
            r = of_int (round_half_even (x / q)) * q
        in if 1024 \<le> e0 then sgn x * 2 ^ 1024
           else if e0 = 1023 then (if 2 ^ 1024 \<le> \<bar>r\<bar> then sgn x * 2 ^ 1024 else r)
           else r)"

subsection \<open>Errors\<close>

text \<open>
  \<open>ValueError\<close> is what \<open>np.argmin\<close> raises on an empty sequence; no other exception is
  reachable from the functions modelled here.
\<close>

datatype error = ValueError

subsection \<open>Font-size clustering\<close>

text \<open>
  \<open>cluster_font_sizes(sizes, n=4)\<close>. The fit of scikit-learn's \<open>KMeans\<close> (with its fixed
  \<open>random_state\<close>) is a parameter \<open>km\<close>: \<open>km n sizes\<close> is the flattened array of cluster
  centers for \<open>n\<close> clusters.
\<close>

definition cluster_font_sizes :: "(nat \<Rightarrow> real list \<Rightarrow> real list) \<Rightarrow> real list \<Rightarrow> nat \<Rightarrow> real list" where
  "cluster_font_sizes km sizes n =
     (let unique_sizes = remdups sizes;
          n = (if length unique_sizes < n then length unique_sizes else n)
      in if n = 0 then [] else sort (km n sizes))"

text \<open>
  \<open>np.argmin\<close>: the index of the first occurrence of the minimum; raises on an empty
  sequence. \<open>argmin_from i best bi xs\<close> scans the rest \<open>xs\<close>, whose first element has index
  \<open>i\<close>, with the least value so far \<open>best\<close> found at index \<open>bi\<close>.
\<close>

fun argmin_from :: "nat \<Rightarrow> real \<Rightarrow> nat \<Rightarrow> real list \<Rightarrow> nat" where
  "argmin_from i best bi [] = bi"
| "argmin_from i best bi (x # xs) =
     (if x < best then argmin_from (Suc i) x i xs else argmin_from (Suc i) best bi xs)"

definition argmin :: "real list \<Rightarrow> error + nat" where
  "argmin xs = (case xs of [] \<Rightarrow> Inl ValueError | x # rest \<Rightarrow> Inr (argmin_from 1 x 0 rest))"

text \<open>
  \<open>map_cluster(size, centers)\<close>. The subtraction is a floating-point one; the absolute
  value is exact.
\<close>

definition map_cluster :: "real \<Rightarrow> real list \<Rightarrow> error + nat" where
  "map_cluster size' centers = (let diffs = map (\<lambda>c. \<bar>fl64 (size' - c)\<bar>) centers in argmin diffs)"

subsection \<open>Input from the parsing backend\<close>

text \<open>
  What \<open>page.get_text("dict")\<close> supplies, reduced to the fields the code reads: a span's
  text, size, font and \<open>bbox[0]\<close>; a line's \<open>bbox[1]\<close> and spans; a block's type and lines;
  a page's \<open>rect.height\<close> and blocks. A document is the list of its pages.
\<close>

record raw_span =
  r_text :: string
  r_size :: real
  r_font :: string
  r_bbox0 :: real

record raw_line =
  l_bbox1 :: real
  l_spans :: "raw_span list"

record block =
  b_type :: int
  b_lines :: "raw_line list"

record page =
  rect_height :: real
  p_blocks :: "block list"

type_synonym document = "page list"

text \<open>The dictionary that \<open>extract_spans\<close> appends for each span.\<close>

record span =
  s_pno :: nat
  s_y0 :: real
  s_text :: string
  s_size :: real
  s_font :: string
  s_bbox0 :: real

text \<open>
  \<open>round(x, 1)\<close>: the exact value of \<open>x\<close> rounded to one decimal, an exact tie going to
  the even digit, and the binary64 value nearest to that decimal.
\<close>

definition round1 :: "real \<Rightarrow> real" where
  "round1 x = fl64 (of_int (round_half_even (x * 10)) / 10)"

text \<open>\<open>extract_spans(doc)\<close>, by line, by page and for the document.\<close>

definition line_spans :: "nat \<Rightarrow> raw_line \<Rightarrow> span list" where
  "line_spans pno line =
     (let y0 = round1 (l_bbox1 line)
      in map (\<lambda>r. \<lparr>s_pno = pno, s_y0 = y0, s_text = strip (r_text r), s_size = r_size r,
                    s_font = r_font r, s_bbox0 = r_bbox0 r\<rparr>)
           (filter (\<lambda>r. strip (r_text r) \<noteq> []) (l_spans line)))"

definition page_spans :: "nat \<Rightarrow> page \<Rightarrow> span list" where
  "page_spans pno pg =
     concat (map (line_spans pno) (concat (map b_lines (filter (\<lambda>b. b_type b = 0) (p_blocks pg)))))"

definition extract_spans :: "document \<Rightarrow> span list" where
  "extract_spans doc = concat (map (\<lambda>(pno, pg). page_spans pno pg) (enumerate 0 doc))"

subsection \<open>Patterns\<close>

text \<open>
  \<open>re.fullmatch(r'\d+\.?', text)\<close>: one or more digits, then at most one period, and nothing
  else. The digits of a match are the longest run of digits at the start, since what
  follows them must be a period or the end.
\<close>

definition fullmatch_digits_dot :: "string \<Rightarrow> bool" where
  "fullmatch_digits_dot text =
     (let ds = takeWhile is_digit text; rest = dropWhile is_digit text
      in ds \<noteq> [] \<and> (rest = [] \<or> rest = ''.''))"

text \<open>\<open>re.fullmatch(r'\d+', text)\<close>.\<close>

definition fullmatch_digits :: "string \<Rightarrow> bool" where
  "fullmatch_digits text = (text \<noteq> [] \<and> list_all is_digit text)"

text \<open>
  \<open>is_numbered(text)\<close>, that is \<open>bool(re.match(r'^\d+\.?\d*', text))\<close>: \<open>\d+\<close> needs one
  digit at the start, and \<open>\.?\d*\<close> matches the empty string, so a match exists exactly
  when the run of digits at the start is not empty.
\<close>

definition is_numbered :: "string \<Rightarrow> bool" where
  "is_numbered text = (takeWhile is_digit text \<noteq> [])"

subsection \<open>Depth labels\<close>

text \<open>Decimal formatting of an integer, as in an f-string.\<close>

fun str_nat :: "nat \<Rightarrow> string" where
  "str_nat n =
     (if n < 10 then [''0123456789'' ! n] else str_nat (n div 10) @ [''0123456789'' ! (n mod 10)])"

declare str_nat.simps [simp del]

definition str_int :: "int \<Rightarrow> string" where
  "str_int i = (if i < 0 then CHR ''-'' # str_nat (nat (- i)) else str_nat (nat i))"

text \<open>\<open>int(c)\<close> for a one-character string: a digit's value, \<open>ValueError\<close> otherwise.\<close>

definition int_of_char :: "char \<Rightarrow> error + int" where
  "int_of_char c = (if is_digit c then Inr (int (of_char c) - 48) else Inl ValueError)"

text \<open>
  The level of a line whose font level is \<open>max_c\<close> (lines 118 to 120 of the source): the
  label \<open>H\<close> followed by \<open>len(centers) - max_c\<close>, and for a numbered line whose label is not
  \<open>H1\<close>, \<open>H\<close> followed by the label's second character read as a number, minus one.
\<close>

definition assign_level :: "nat \<Rightarrow> nat \<Rightarrow> string \<Rightarrow> error + string" where
  "assign_level ncenters max_c text =
     (let level = CHR ''H'' # str_int (int ncenters - int max_c)
      in if is_numbered text \<and> level \<noteq> ''H1''
         then (case int_of_char (level ! 1) of
                 Inl e \<Rightarrow> Inl e
               | Inr d \<Rightarrow> Inr (CHR ''H'' # str_int (d - 1)))
         else Inr level)"

subsection \<open>Lines and the page sets of texts\<close>

text \<open>
  \<open>lines.setdefault(key, []).append(s)\<close> on a dictionary kept as an association list in
  insertion order, which is the order \<open>lines.items()\<close> yields.
\<close>

fun setdefault_append :: "'k \<Rightarrow> 'v \<Rightarrow> ('k \<times> 'v list) list \<Rightarrow> ('k \<times> 'v list) list" where
  "setdefault_append k v [] = [(k, [v])]"
| "setdefault_append k v ((k', vs) # rest) =
     (if k' = k then (k', vs @ [v]) # rest else (k', vs) # setdefault_append k v rest)"

definition group_lines :: "span list \<Rightarrow> ((nat \<times> real) \<times> span list) list" where
  "group_lines spans = foldl (\<lambda>lines s. setdefault_append (s_pno s, s_y0 s) s lines) [] spans"

text \<open>\<open>text_pages.setdefault(s['text'], set()).add(s['pno'])\<close> for every span.\<close>

definition build_text_pages :: "span list \<Rightarrow> (string \<rightharpoonup> nat set)" where
  "build_text_pages spans =
     foldl (\<lambda>tp s. tp(s_text s \<mapsto> insert (s_pno s) (case tp (s_text s) of None \<Rightarrow> {} | Some ps \<Rightarrow> ps)))
       Map.empty spans"

text \<open>\<open>len(text_pages.get(text, []))\<close>.\<close>

definition page_count_of :: "(string \<rightharpoonup> nat set) \<Rightarrow> string \<Rightarrow> nat" where
  "page_count_of text_pages text = (case text_pages text of None \<Rightarrow> 0 | Some ps \<Rightarrow> card ps)"

subsection \<open>Headings\<close>

record heading =
  h_page :: nat
  h_y :: real
  h_level :: string
  h_text :: string

record outline_entry =
  o_level :: string
  o_text :: string
  o_page :: nat

text \<open>\<open>[map_cluster(s['size'], centers) for s in group]\<close>; the first exception ends it.\<close>

fun map_clusters :: "real list \<Rightarrow> span list \<Rightarrow> error + nat list" where
  "map_clusters centers [] = Inr []"
| "map_clusters centers (s # ss) =
     (case map_cluster (s_size s) centers of
        Inl e \<Rightarrow> Inl e
      | Inr c \<Rightarrow> (case map_clusters centers ss of Inl e \<Rightarrow> Inl e | Inr cs \<Rightarrow> Inr (c # cs)))"

text \<open>\<open>max(xs)\<close>, which raises on an empty list.\<close>

definition py_max :: "nat list \<Rightarrow> error + nat" where
  "py_max xs = (case xs of [] \<Rightarrow> Inl ValueError | x # rest \<Rightarrow> Inr (fold max rest x))"

text \<open>
  The body of the loop over \<open>lines.items()\<close> (lines 86 to 122 of the source) for one line:
  \<open>Inr None\<close> is a \<open>continue\<close>, \<open>Inr (Some h)\<close> the heading appended, \<open>Inl e\<close> an exception.
  The page number of a span is an index of the document the span came from.
\<close>

definition line_heading ::
  "document \<Rightarrow> real list \<Rightarrow> (string \<rightharpoonup> nat set) \<Rightarrow> (nat \<times> real) \<times> span list \<Rightarrow> error + heading option" where
  "line_heading doc centers text_pages entry =
     (case entry of ((pno, y0), grp0) \<Rightarrow>
      let page_h = rect_height (doc ! pno)
      in if y0 < 30 \<or> y0 > fl64 (page_h - 30) then Inr None
         else
           let grp = sort_key s_bbox0 grp0;
               text = join_space (map s_text grp)
           in if page_count_of text_pages text > 2 then Inr None
              else if fullmatch_digits_dot text then Inr None
              else if length grp > 5 then Inr None
              else if fullmatch_digits text then Inr None
              else
                (case map_clusters centers grp of
                   Inl e \<Rightarrow> Inl e
                 | Inr cluster_idxs \<Rightarrow>
                     (case py_max cluster_idxs of
                        Inl e \<Rightarrow> Inl e
                      | Inr max_c0 \<Rightarrow>
                          if list_ex (\<lambda>c. c = 0) cluster_idxs
                             \<and> \<not> list_all (\<lambda>f. contains ''Italic'' f \<or> contains ''Bold'' f) (map s_font grp)
                          then Inr None
                          else
                            let max_c = (if list_ex (\<lambda>c. c = 0) cluster_idxs then 1 else max_c0)
                            in if max_c < 2 then Inr None
                               else
                                 (case assign_level (length centers) max_c text of
                                    Inl e \<Rightarrow> Inl e
                                  | Inr level \<Rightarrow>
                                      Inr (Some \<lparr>h_page = pno + 1, h_y = y0, h_level = level,
                                                 h_text = text @ '' ''\<rparr>)))))"

text \<open>The whole loop: the headings in the order of the lines, or the first exception.\<close>

fun collect_headings ::
  "document \<Rightarrow> real list \<Rightarrow> (string \<rightharpoonup> nat set) \<Rightarrow> ((nat \<times> real) \<times> span list) list \<Rightarrow> error + heading list" where
  "collect_headings doc centers text_pages [] = Inr []"
| "collect_headings doc centers text_pages (entry # rest) =
     (case line_heading doc centers text_pages entry of
        Inl e \<Rightarrow> Inl e
      | Inr None \<Rightarrow> collect_headings doc centers text_pages rest
      | Inr (Some h) \<Rightarrow>
          (case collect_headings doc centers text_pages rest of
             Inl e \<Rightarrow> Inl e
           | Inr hs \<Rightarrow> Inr (h # hs)))"

subsection \<open>Title and outline\<close>

text \<open>\<open>headings.sort(key=lambda h: (h['page'], h['y']))\<close>; the sort is stable.\<close>

definition sort_headings :: "heading list \<Rightarrow> heading list" where
  "sort_headings hs = sort_key (\<lambda>h. (h_page h, h_y h)) hs"

text \<open>The list \<open>p1_h1\<close> after line 129: the title headings.\<close>

definition title_headings :: "heading list \<Rightarrow> heading list" where
  "title_headings hs =
     take 2 (sort_key h_y (filter (\<lambda>h. h_page h = 1 \<and> h_level h = ''H1'') hs))"

definition title_of :: "heading list \<Rightarrow> string" where
  "title_of hs = strip (concat (map h_text (title_headings hs)))"

text \<open>The list \<open>headings\<close> after line 134.\<close>

definition remove_title :: "heading list \<Rightarrow> heading list" where
  "remove_title hs =
     (let title_set = set (map h_text (title_headings hs))
      in filter (\<lambda>h. \<not> (h_page h = 1 \<and> h_level h = ''H1'' \<and> h_text h \<in> title_set)) hs)"

definition outline_of :: "heading list \<Rightarrow> outline_entry list" where
  "outline_of hs = map (\<lambda>h. \<lparr>o_level = h_level h, o_text = h_text h, o_page = h_page h\<rparr>) hs"

text \<open>
  The headings collected by the loop and sorted (the list \<open>headings\<close> after line 125), for a
  document with at least one span.
\<close>

definition sorted_headings :: "(nat \<Rightarrow> real list \<Rightarrow> real list) \<Rightarrow> document \<Rightarrow> error + heading list" where
  "sorted_headings km doc =
     (let spans = extract_spans doc;
          centers = cluster_font_sizes km (map s_size spans) 4
      in case collect_headings doc centers (build_text_pages spans) (group_lines spans) of
           Inl e \<Rightarrow> Inl e
         | Inr hs \<Rightarrow> Inr (sort_headings hs))"

text \<open>\<open>extract_outline\<close>, on the parsed document.\<close>

definition extract_outline ::
  "(nat \<Rightarrow> real list \<Rightarrow> real list) \<Rightarrow> document \<Rightarrow> error + string \<times> outline_entry list" where
  "extract_outline km doc =
     (if extract_spans doc = [] then Inr ([], [])
      else case sorted_headings km doc of
             Inl e \<Rightarrow> Inl e
           | Inr headings \<Rightarrow> Inr (title_of headings, outline_of (remove_title headings)))"

section \<open>Sections and excerpts (Challenge\_1b/main.py)\<close>

subsection \<open>Text utilities\<close>

text \<open>
  \<open>re.sub(P+, ' ', text)\<close> for a character class \<open>P\<close>: every maximal run of characters
  of the class becomes one space.
\<close>

fun collapse_runs :: "(char \<Rightarrow> bool) \<Rightarrow> string \<Rightarrow> string" where
  "collapse_runs P [] = []"
| "collapse_runs P [c] = (if P c then '' '' else [c])"
| "collapse_runs P (c # d # cs) =
     (if P c then (if P d then collapse_runs P (d # cs) else CHR '' '' # collapse_runs P (d # cs))
      else c # collapse_runs P (d # cs))"

text \<open>The characters that the second substitution of \<open>clean_text\<close> keeps.\<close>

definition is_kept :: "char \<Rightarrow> bool" where
  "is_kept c = (is_word c \<or> is_space c \<or> c \<in> set ''.,!?;:-()'')"

text \<open>\<open>clean_text(text)\<close>.\<close>

definition clean_text :: "string \<Rightarrow> string" where
  "clean_text text =
     (let text = collapse_runs is_space text;
          text = collapse_runs (\<lambda>c. \<not> is_kept c) text
      in strip text)"

text \<open>\<open>txt.isupper()\<close>: some cased character, and no lower-case one.\<close>

definition isupper :: "string \<Rightarrow> bool" where
  "isupper txt = (list_ex is_upper txt \<and> \<not> list_ex is_lower txt)"

text \<open>\<open>txt.endswith(':')\<close>.\<close>

definition endswith_colon :: "string \<Rightarrow> bool" where
  "endswith_colon txt = (txt \<noteq> [] \<and> last txt = CHR '':'')"

subsection \<open>Section segmentation\<close>

text \<open>
  The dictionaries that \<open>extract_sections\<close> appends to \<open>spans\<close>, one for a line whose joined
  text is not empty (their field \<open>spans\<close> is never read), and the section dictionaries.
\<close>

record item =
  i_p :: nat
  i_y :: real
  i_text :: string

record section_rec =
  sec_title :: string
  sec_page :: nat
  sec_content :: string

definition line_item :: "nat \<Rightarrow> raw_line \<Rightarrow> item list" where
  "line_item p line =
     (let y0 = round1 (l_bbox1 line);
          txt = join_space (filter (\<lambda>t. t \<noteq> []) (map (\<lambda>r. strip (r_text r)) (l_spans line)))
      in if txt \<noteq> [] then [\<lparr>i_p = p, i_y = y0, i_text = txt\<rparr>] else [])"

definition section_items :: "document \<Rightarrow> item list" where
  "section_items doc =
     concat (map (\<lambda>(p, pg).
        concat (map (line_item p) (concat (map b_lines (filter (\<lambda>b. b_type b = 0) (p_blocks pg))))))
       (enumerate 0 doc))"

text \<open>The heading heuristic of line 83.\<close>

definition is_title_line :: "string \<Rightarrow> bool" where
  "is_title_line txt = (isupper txt \<or> endswith_colon txt)"

text \<open>
  The loop of lines 80 to 91 over the sorted items, with the list \<open>sections\<close> and the open
  section \<open>current\<close> (\<open>None\<close> at the start; a dictionary is always true in a test).
\<close>

fun segment :: "section_rec list \<Rightarrow> section_rec option \<Rightarrow> item list \<Rightarrow> section_rec list \<times> section_rec option" where
  "segment sections current [] = (sections, current)"
| "segment sections current (it # rest) =
     (let txt = i_text it
      in if is_title_line txt
         then segment (case current of None \<Rightarrow> sections | Some c \<Rightarrow> sections @ [c])
                (Some \<lparr>sec_title = clean_text txt, sec_page = i_p it + 1, sec_content = []\<rparr>) rest
         else (case current of
                 Some c \<Rightarrow>
                   segment sections (Some (c\<lparr>sec_content := sec_content c @ '' '' @ clean_text txt\<rparr>)) rest
               | None \<Rightarrow>
                   segment sections
                     (Some \<lparr>sec_title = ''Introduction'', sec_page = i_p it + 1, sec_content = clean_text txt\<rparr>)
                     rest))"

text \<open>The list \<open>sections\<close> after line 93, for a list of items already sorted.\<close>

definition close_sections :: "item list \<Rightarrow> section_rec list" where
  "close_sections its =
     (case segment [] None its of
        (sections, None) \<Rightarrow> sections
      | (sections, Some c) \<Rightarrow> sections @ [c])"

text \<open>\<open>sorted(spans, key=lambda x:(x['p'],x['y']))\<close>; the sort is stable.\<close>

definition sorted_items :: "document \<Rightarrow> item list" where
  "sorted_items doc = sort_key (\<lambda>x. (i_p x, i_y x)) (section_items doc)"

definition all_sections :: "document \<Rightarrow> section_rec list" where
  "all_sections doc = close_sections (sorted_items doc)"

text \<open>\<open>DocumentAnalyzer.extract_sections\<close>, on the parsed document.\<close>

definition extract_sections :: "document \<Rightarrow> section_rec list" where
  "extract_sections doc = filter (\<lambda>s. length (sec_content s) > 20) (all_sections doc)"

subsection \<open>Excerpts\<close>

text \<open>
  \<open>re.split(r'(?<=[.!?]) +', content)\<close>. A match is a maximal run of spaces that follows one
  of the three marks: it cannot start inside a run of spaces, and it takes the whole run.
  The flag of \<open>split_from\<close> says that the characters read now continue such a run.
\<close>

fun split_from :: "bool \<Rightarrow> string \<Rightarrow> string list" where
  "split_from skip [] = [[]]"
| "split_from skip (c # cs) =
     (if skip \<and> c = CHR '' '' then split_from True cs
      else if c \<in> set ''.!?'' \<and> cs \<noteq> [] \<and> hd cs = CHR '' '' then [c] # split_from True cs
      else (case split_from False cs of
              [] \<Rightarrow> [[c]]
            | p # ps \<Rightarrow> (c # p) # ps))"

definition split_sentences :: "string \<Rightarrow> string list" where
  "split_sentences content = split_from False content"

text \<open>
  The analyzer's settings that the modelled methods read, with the defaults of
  \<open>__init__\<close>, and a ranked section: a section with its \<open>document\<close> entry.
\<close>

record analyzer =
  max_sections :: nat
  max_subs :: nat

definition default_analyzer :: analyzer where
  "default_analyzer = \<lparr>max_sections = 10, max_subs = 5\<rparr>"

record ranked_section = section_rec +
  sec_document :: string

record excerpt =
  e_document :: string
  e_refined_text :: string
  e_page_number :: nat

text \<open>\<open>DocumentAnalyzer.extract_subsections\<close>; \<open>persona\<close> and \<open>job\<close> are not read.\<close>

definition extract_subsections :: "analyzer \<Rightarrow> ranked_section list \<Rightarrow> excerpt list" where
  "extract_subsections self ranked =
     map (\<lambda>sec.
            let sents = split_sentences (sec_content sec);
                sel = take 3 sents;
                text = join_space sel
            in \<lparr>e_document = sec_document sec, e_refined_text = text, e_page_number = sec_page sec\<rparr>)
       (take (max_subs self) ranked)"

subsection \<open>The segmentation read as groups of lines\<close>

text \<open>
  A second reading of the segmentation, to compare with the loop: \<open>title_groups\<close> cuts the
  line stream at the title lines, giving the lines before the first title line and each
  title line with the lines that follow it up to the next title line. A title line with
  its lines is a section whose body is every one of these lines, normalized and prefixed
  with one space; the leading lines, when there are any, are the section
  \<open>Introduction\<close>, whose body starts with the first line's normalized text.
\<close>

fun title_groups :: "item list \<Rightarrow> item list \<times> (item \<times> item list) list" where
  "title_groups [] = ([], [])"
| "title_groups (x # xs) =
     (case title_groups xs of
        (lead, gs) \<Rightarrow> if is_title_line (i_text x) then ([], (x, lead) # gs) else (x # lead, gs))"

definition body_text :: "item list \<Rightarrow> string" where
  "body_text lines = concat (map (\<lambda>x. CHR '' '' # clean_text (i_text x)) lines)"

definition titled_section :: "item \<times> item list \<Rightarrow> section_rec" where
  "titled_section g =
     \<lparr>sec_title = clean_text (i_text (fst g)), sec_page = i_p (fst g) + 1, sec_content = body_text (snd g)\<rparr>"

definition introduction_section :: "item list \<Rightarrow> section_rec list" where
  "introduction_section lead =
     (case lead of
        [] \<Rightarrow> []
      | x # others \<Rightarrow>
          [\<lparr>sec_title = ''Introduction'', sec_page = i_p x + 1,
            sec_content = clean_text (i_text x) @ body_text others\<rparr>])"

subsection \<open>Pieces of a split text\<close>

text \<open>
  Predicates for stating what \<open>split_from\<close> returns: a text with no split point (one of
  the three marks followed by a space), and a list of pieces in which every piece but the
  last ends with a mark, no piece has a split point, and no piece after the first starts
  with a space or is empty unless it is the last.
\<close>

fun no_break :: "string \<Rightarrow> bool" where
  "no_break [] = True"
| "no_break (c # cs) = (\<not> (c \<in> set ''.!?'' \<and> cs \<noteq> [] \<and> hd cs = CHR '' '') \<and> no_break cs)"

fun pieces_ok :: "string list \<Rightarrow> bool" where
  "pieces_ok [] = False"
| "pieces_ok [p] = no_break p"
| "pieces_ok (p # q # rest) =
     (no_break p \<and> p \<noteq> [] \<and> last p \<in> set ''.!?''
      \<and> (q = [] \<longrightarrow> rest = []) \<and> (q \<noteq> [] \<longrightarrow> hd q \<noteq> CHR '' '')
      \<and> pieces_ok (q # rest))"

section \<open>Example documents\<close>


text \<open>
  A stand-in for the \<open>KMeans\<close> fit on inputs with at most as many distinct sizes as
  clusters: every distinct size is then its own cluster, and the centers are the distinct
  sizes.
\<close>

definition km_distinct :: "nat \<Rightarrow> real list \<Rightarrow> real list" where
  "km_distinct n sizes = remdups sizes"

text \<open>A text block of one line at height \<open>y\<close>, with spans given as (text, size, font, x).\<close>

definition text_line :: "real \<Rightarrow> (string \<times> real \<times> string \<times> real) list \<Rightarrow> block" where
  "text_line y ss =
     \<lparr>b_type = 0, b_lines = [\<lparr>l_bbox1 = y,
        l_spans = map (\<lambda>(t, sz, f, x). \<lparr>r_text = t, r_size = sz, r_font = f, r_bbox0 = x\<rparr>) ss\<rparr>]\<rparr>"

text \<open>Two pages with four font sizes; the numbered line is set in the second largest.\<close>

definition doc_numbered :: document where
  "doc_numbered =
     [\<lparr>rect_height = 800, p_blocks =
         [text_line 100 [(''Report'', 24, ''Helvetica'', 72)],
          text_line 200 [(''Body text here'', 12, ''Helvetica'', 72)],
          text_line 250 [(''footnote'', 8, ''Helvetica'', 72)]]\<rparr>,
      \<lparr>rect_height = 800, p_blocks =
         [text_line 100 [(''1.1 Scope'', 16, ''Helvetica'', 72)]]\<rparr>]"

text \<open>One page whose first line is all bold and joins the largest and the smallest size.\<close>

definition doc_styled :: document where
  "doc_styled =
     [\<lparr>rect_height = 800, p_blocks =
         [text_line 100 [(''Annual'', 24, ''Times-Bold'', 72), (''note'', 8, ''Times-BoldItalic'', 200)],
          text_line 150 [(''Summary'', 16, ''Times-Roman'', 72)],
          text_line 200 [(''Body text here'', 12, ''Times-Roman'', 72)]]\<rparr>]"

text \<open>One page with an image block and a span of white space only: no span is extracted.\<close>

definition doc_blank :: document where
  "doc_blank =
     [\<lparr>rect_height = 800, p_blocks =
         [\<lparr>b_type = 1, b_lines = []\<rparr>, text_line 100 [(''   '', 12, ''Helvetica'', 72)]]\<rparr>]"

text \<open>One page with three lines in the largest size, two of them with the same text.\<close>

definition doc_repeat :: document where
  "doc_repeat =
     [\<lparr>rect_height = 800, p_blocks =
         [text_line 100 [(''Overview'', 24, ''Helvetica'', 72)],
          text_line 150 [(''Plan'', 24, ''Helvetica'', 72)],
          text_line 300 [(''Overview'', 24, ''Helvetica'', 72)],
          text_line 400 [(''Body text here'', 12, ''Helvetica'', 72)],
          text_line 500 [(''footnote'', 8, ''Helvetica'', 72)]]\<rparr>]"

text \<open>
  Three pages that each start with the same line of two spans in the largest size.
\<close>

definition doc_running :: document where
  "doc_running =
     [\<lparr>rect_height = 800, p_blocks =
         [text_line 100 [(''Annual'', 24, ''Helvetica'', 72), (''Report'', 24, ''Helvetica'', 160)],
          text_line 400 [(''Body text here'', 12, ''Helvetica'', 72)],
          text_line 500 [(''footnote'', 8, ''Helvetica'', 72)]]\<rparr>,
      \<lparr>rect_height = 800, p_blocks =
         [text_line 100 [(''Annual'', 24, ''Helvetica'', 72), (''Report'', 24, ''Helvetica'', 160)]]\<rparr>,
      \<lparr>rect_height = 800, p_blocks =
         [text_line 100 [(''Annual'', 24, ''Helvetica'', 72), (''Report'', 24, ''Helvetica'', 160)]]\<rparr>]"

text \<open>One page whose blocks are not listed from top to bottom.\<close>

definition doc_unordered :: document where
  "doc_unordered =
     [\<lparr>rect_height = 800, p_blocks =
         [text_line 400 [(''Delta'', 24, ''Helvetica'', 72)],
          text_line 100 [(''Alpha'', 24, ''Helvetica'', 72)],
          text_line 300 [(''Gamma'', 24, ''Helvetica'', 72)],
          text_line 200 [(''Beta'', 24, ''Helvetica'', 72)],
          text_line 500 [(''Body text here'', 12, ''Helvetica'', 72)],
          text_line 600 [(''footnote'', 8, ''Helvetica'', 72)]]\<rparr>]"

text \<open>A title line followed by one line of 19 characters.\<close>

definition doc_twenty :: document where
  "doc_twenty =
     [\<lparr>rect_height = 800, p_blocks =
         [text_line 100 [(''SUMMARY:'', 14, ''Helvetica'', 72)],
          text_line 120 [(''Costs rose in 2024.'', 10, ''Helvetica'', 72)]]\<rparr>]"

text \<open>Leading text, a title line with three sentences on two lines, and a last title line.\<close>

definition doc_sections :: document where
  "doc_sections =
     [\<lparr>rect_height = 800, p_blocks =
         [text_line 100 [(''This report covers the year.'', 10, ''Helvetica'', 72)],
          text_line 120 [(''SUMMARY:'', 14, ''Helvetica'', 72)],
          text_line 140 [(''Costs rose in 2024.'', 10, ''Helvetica'', 72), (''Sales fell.'', 10, ''Helvetica'', 300)],
          text_line 160 [(''Margins held.'', 10, ''Helvetica'', 72)],
          text_line 180 [(''APPENDIX'', 14, ''Helvetica'', 72)]]\<rparr>]"

text \<open>A first line that normalizes to the empty text, a line of text, and a title line.\<close>

definition doc_bullet :: document where
  "doc_bullet =
     [\<lparr>rect_height = 800, p_blocks =
         [text_line 100 [(''*'', 10, ''Helvetica'', 72)],
          text_line 120 [(''Growth was steady all year.'', 10, ''Helvetica'', 72)],
          text_line 140 [(''APPENDIX'', 14, ''Helvetica'', 72)]]\<rparr>]"

text \<open>Six ranked sections.\<close>

definition ranked_example :: "ranked_section list" where
  "ranked_example =
     [\<lparr>sec_title = ''SUMMARY:'', sec_page = 1,
       sec_content = '' Costs rose in 2024. Sales fell.  Margins held! Staff grew. More followed.'',
       sec_document = ''report.pdf''\<rparr>,
      \<lparr>sec_title = ''Introduction'', sec_page = 1, sec_content = ''This report covers the year.'',
       sec_document = ''report.pdf''\<rparr>,
      \<lparr>sec_title = ''METHODS'', sec_page = 2, sec_content = '' We asked. They answered? Yes. No.'',
       sec_document = ''survey.pdf''\<rparr>,
      \<lparr>sec_title = ''RESULTS'', sec_page = 3, sec_content = '' Numbers went up and then down'',
       sec_document = ''survey.pdf''\<rparr>,
      \<lparr>sec_title = ''NOTES:'', sec_page = 4, sec_content = '' Figures are in thousands. ''  ,
       sec_document = ''survey.pdf''\<rparr>,
      \<lparr>sec_title = ''ANNEX'', sec_page = 9, sec_content = '' Tables follow on later pages.'',
       sec_document = ''annex.pdf''\<rparr>]"

section \<open>Properties\<close>

subsection \<open>Nearest-center mapping\<close>

lemma argmin_from_spec:
  assumes "bi < i" and "length pre = i" and "pre ! bi = best"
    and "\<forall>j<i. best \<le> pre ! j" and "\<forall>j<bi. best < pre ! j"
  shows "argmin_from i best bi xs < length (pre @ xs)
       \<and> (\<forall>j<length (pre @ xs). (pre @ xs) ! argmin_from i best bi xs \<le> (pre @ xs) ! j)
       \<and> (\<forall>j<argmin_from i best bi xs. (pre @ xs) ! argmin_from i best bi xs < (pre @ xs) ! j)"
  using assms
proof (induction xs arbitrary: i best bi pre)
  case Nil
  then show ?case by simp
next
  case (Cons x xs)
  let ?pre = "pre @ [x]"
  have len: "length ?pre = Suc i" using Cons.prems by simp
  show ?case
  proof (cases "x < best")
    case True
    have a: "i < Suc i" by simp
    have b: "?pre ! i = x" using Cons.prems by (simp add: nth_append)
    have c: "\<forall>j<Suc i. x \<le> ?pre ! j"
    proof (intro allI impI)
      fix j assume "j < Suc i"
      then show "x \<le> ?pre ! j"
        using Cons.prems True by (cases "j = i") (auto simp: nth_append less_Suc_eq intro: less_imp_le order_trans)
    qed
    have d: "\<forall>j<i. x < ?pre ! j"
      using Cons.prems True by (auto simp: nth_append intro: less_le_trans)
    from Cons.IH[OF a len b c d] True show ?thesis by simp
  next
    case False
    have a: "bi < Suc i" using Cons.prems by simp
    have b: "?pre ! bi = best" using Cons.prems by (simp add: nth_append)
    have c: "\<forall>j<Suc i. best \<le> ?pre ! j"
    proof (intro allI impI)
      fix j assume "j < Suc i"
      then show "best \<le> ?pre ! j"
        using Cons.prems False by (cases "j = i") (auto simp: nth_append less_Suc_eq)
    qed
    have d: "\<forall>j<bi. best < ?pre ! j"
      using Cons.prems by (auto simp: nth_append)
    from Cons.IH[OF a len b c d] False show ?thesis by simp
  qed
qed

lemma argmin_first_min:
  assumes "argmin xs = Inr i"
  shows "i < length xs \<and> (\<forall>j<length xs. xs ! i \<le> xs ! j) \<and> (\<forall>j<i. xs ! i < xs ! j)"
proof (cases xs)
  case Nil
  with assms show ?thesis by (simp add: argmin_def)
next
  case (Cons x rest)
  with assms have i: "i = argmin_from 1 x 0 rest" by (simp add: argmin_def)
  have "argmin_from 1 x 0 rest < length ([x] @ rest)
       \<and> (\<forall>j<length ([x] @ rest). ([x] @ rest) ! argmin_from 1 x 0 rest \<le> ([x] @ rest) ! j)
       \<and> (\<forall>j<argmin_from 1 x 0 rest. ([x] @ rest) ! argmin_from 1 x 0 rest < ([x] @ rest) ! j)"
    by (rule argmin_from_spec) auto
  with i Cons show ?thesis by simp
qed

lemma argmin_lt: "argmin xs = Inr i \<Longrightarrow> i < length xs"
  using argmin_first_min[of xs i] by simp



lemma argmin_total: "xs \<noteq> [] \<Longrightarrow> \<exists>i. argmin xs = Inr i"
  by (cases xs) (auto simp: argmin_def)

lemma map_cluster_range:
  "map_cluster s centers = Inr i \<Longrightarrow> i < length centers"
  using argmin_lt[of "map (\<lambda>c. \<bar>fl64 (s - c)\<bar>) centers" i] by (simp add: map_cluster_def)




subsection \<open>Font levels of a line\<close>

lemma map_clusters_Inr:
  "map_clusters centers g = Inr idxs \<Longrightarrow> list_all2 (\<lambda>s c. map_cluster (s_size s) centers = Inr c) g idxs"
  by (induction g arbitrary: idxs) (auto split: sum.splits)

lemma map_clusters_total:
  "centers \<noteq> [] \<Longrightarrow> \<exists>idxs. map_clusters centers g = Inr idxs"
proof (induction g)
  case Nil
  then show ?case by simp
next
  case (Cons s g)
  from Cons.prems obtain c where "map_cluster (s_size s) centers = Inr c"
    using argmin_total[of "map (\<lambda>c. \<bar>fl64 (s_size s - c)\<bar>) centers"] by (auto simp: map_cluster_def)
  with Cons show ?case by auto
qed

lemma map_cluster_Inr_nonempty: "map_cluster x centers = Inr c \<Longrightarrow> centers \<noteq> []"
  by (auto simp: map_cluster_def argmin_def)

lemma map_clusters_zero:
  assumes "map_clusters centers g = Inr idxs"
  shows "list_ex (\<lambda>c. c = 0) idxs \<longleftrightarrow> (\<exists>s\<in>set g. map_cluster (s_size s) centers = Inr 0)"
  using assms
  by (induction g arbitrary: idxs) (auto split: sum.splits)

lemma map_clusters_length: "map_clusters centers g = Inr idxs \<Longrightarrow> length idxs = length g"
  by (induction g arbitrary: idxs) (auto split: sum.splits)

lemma py_max_total: "xs \<noteq> [] \<Longrightarrow> \<exists>m. py_max xs = Inr m"
  by (cases xs) (auto simp: py_max_def)

lemma line_level0_rejected:
  assumes "\<exists>s\<in>set grp. map_cluster (s_size s) centers = Inr 0"
  shows "line_heading doc centers tp ((pno, y0), grp) = Inr None"
proof -
  let ?g = "sort_key s_bbox0 grp"
  from assms have ne: "centers \<noteq> []" by (auto dest: map_cluster_Inr_nonempty)
  then obtain idxs where idxs: "map_clusters centers ?g = Inr idxs"
    using map_clusters_total by blast
  from assms have ex: "\<exists>s\<in>set ?g. map_cluster (s_size s) centers = Inr 0" by simp
  with map_clusters_zero[OF idxs] have z: "list_ex (\<lambda>c. c = 0) idxs" by simp
  then have "idxs \<noteq> []" by auto
  then obtain m where m: "py_max idxs = Inr m" using py_max_total by blast
  show ?thesis
    by (simp add: line_heading_def Let_def idxs m z)
qed


lemma py_max_Max: "py_max xs = Inr m \<Longrightarrow> xs \<noteq> [] \<and> m = Max (set xs)"
  by (cases xs) (auto simp: py_max_def Max.set_eq_fold[symmetric])

lemma py_max_mem: "py_max xs = Inr m \<Longrightarrow> m \<in> set xs"
  using py_max_Max[of xs m] Max_in[of "set xs"] by auto

lemma map_clusters_bound:
  "map_clusters centers g = Inr idxs \<Longrightarrow> c \<in> set idxs \<Longrightarrow> c < length centers"
  by (induction g arbitrary: idxs) (auto split: sum.splits dest: map_cluster_range)

lemma digit_cases: "n < 10 \<Longrightarrow> n \<in> {0, 1, 2, 3, 4, 5, 6, 7, 8, 9 :: nat}"
  by (simp, arith)

lemma digit_char_value:
  assumes "n < 10"
  shows "int_of_char (''0123456789'' ! n) = Inr (int n)"
  using digit_cases[OF assms] by (elim insertE emptyE) (simp_all add: int_of_char_def is_digit_def)

lemma digit_char_one:
  assumes "n < 10"
  shows "''0123456789'' ! n = CHR ''1'' \<longleftrightarrow> n = 1"
  using digit_cases[OF assms] by (elim insertE emptyE) simp_all

lemma str_nat_digit: "n < 10 \<Longrightarrow> str_nat n = [''0123456789'' ! n]"
  by (simp add: str_nat.simps)

lemma assign_level_eq:
  assumes "max_c < ncenters" and "ncenters - max_c < 10"
  shows "assign_level ncenters max_c text =
           Inr (if is_numbered text \<and> ncenters - max_c \<noteq> 1
                then CHR ''H'' # str_nat (ncenters - max_c - 1)
                else CHR ''H'' # str_nat (ncenters - max_c))"
proof -
  define b where "b = ncenters - max_c"
  define dc where "dc = ''0123456789'' ! b"
  have b10: "b < 10" and b1: "1 \<le> b" using assms by (simp_all add: b_def)
  have sn: "str_int (int k) = str_nat k" for k by (simp add: str_int_def)
  have i: "int ncenters - int max_c = int b" using assms by (simp add: b_def)
  have sb: "str_nat b = [dc]" unfolding dc_def using b10 by (rule str_nat_digit)
  have level: "CHR ''H'' # str_int (int ncenters - int max_c) = [CHR ''H'', dc]"
    unfolding i sn sb ..
  have v: "int_of_char dc = Inr (int b)" unfolding dc_def using b10 by (rule digit_char_value)
  have one: "dc = CHR ''1'' \<longleftrightarrow> b = 1" unfolding dc_def using b10 by (rule digit_char_one)
  have "int b - 1 = int (b - 1)" using b1 by simp
  then have d: "str_int (int b - 1) = str_nat (b - 1)" by (simp only: sn)
  have "assign_level ncenters max_c text =
           Inr (if is_numbered text \<and> b \<noteq> 1 then CHR ''H'' # str_nat (b - 1) else CHR ''H'' # str_nat b)"
    unfolding assign_level_def Let_def level using v one d sb by simp
  then show ?thesis by (simp only: b_def)
qed

lemma line_heading_SomeD:
  assumes "line_heading doc centers tp ((pno, y0), grp) = Inr (Some h)"
  shows "\<exists>idxs max_c. map_clusters centers (sort_key s_bbox0 grp) = Inr idxs \<and> py_max idxs = Inr max_c
            \<and> \<not> list_ex (\<lambda>c. c = 0) idxs \<and> 2 \<le> max_c
            \<and> assign_level (length centers) max_c (join_space (map s_text (sort_key s_bbox0 grp))) = Inr (h_level h)
            \<and> h_page h = pno + 1 \<and> h_y h = y0
            \<and> h_text h = join_space (map s_text (sort_key s_bbox0 grp)) @ '' ''
            \<and> \<not> (y0 < 30 \<or> y0 > fl64 (rect_height (doc ! pno) - 30))
            \<and> \<not> page_count_of tp (join_space (map s_text (sort_key s_bbox0 grp))) > 2"
  using assms
  by (auto simp: line_heading_def Let_def split: if_splits sum.splits)


subsection \<open>Lines and collected headings\<close>

lemma setdefault_append_keys:
  "map fst (setdefault_append k v l) = (if k \<in> fst ` set l then map fst l else map fst l @ [k])"
  by (induction l) force+

lemma distinct_foldl_setdefault:
  "distinct (map fst acc) \<Longrightarrow>
   distinct (map fst (foldl (\<lambda>lines s. setdefault_append (key s) s lines) acc spans))"
  by (induction spans arbitrary: acc) (auto simp: setdefault_append_keys)

lemma distinct_group_lines: "distinct (map fst (group_lines spans))"
  unfolding group_lines_def
  using distinct_foldl_setdefault[of "[]" "\<lambda>s. (s_pno s, s_y0 s)" spans] by simp

lemma collect_headings_mem:
  "collect_headings doc centers tp lines = Inr hs \<Longrightarrow> h \<in> set hs \<Longrightarrow>
   \<exists>entry\<in>set lines. line_heading doc centers tp entry = Inr (Some h)"
proof (induction lines arbitrary: hs)
  case Nil
  then show ?case by simp
next
  case (Cons entry rest)
  then show ?case
    by (auto split: sum.splits option.splits)
qed

lemma set_sort_headings: "set (sort_headings hs) = set hs"
  by (simp add: sort_headings_def)

subsection \<open>Lines with a span at level 0\<close>

text \<open>
  Claim C9. A line with a span that \<open>map_cluster\<close> sends to level 0 makes the loop body
  \<open>continue\<close>, whatever its fonts are: either the fonts are not all bold or italic, or
  \<open>max_c\<close> becomes 1 and the test \<open>max_c < 2\<close> rejects the line. No collected heading
  carries the page and vertical position of such a line, so none is in the title or the
  outline.
\<close>

theorem level0_line_never_heading:
  assumes "sorted_headings km doc = Inr hs"
    and "((pno, y0), grp) \<in> set (group_lines (extract_spans doc))"
    and "\<exists>s\<in>set grp. map_cluster (s_size s) (cluster_font_sizes km (map s_size (extract_spans doc)) 4) = Inr 0"
  shows "line_heading doc (cluster_font_sizes km (map s_size (extract_spans doc)) 4)
           (build_text_pages (extract_spans doc)) ((pno, y0), grp) = Inr None
       \<and> (\<forall>h\<in>set hs. (h_page h, h_y h) \<noteq> (pno + 1, y0))"
proof -
  let ?spans = "extract_spans doc"
  let ?centers = "cluster_font_sizes km (map s_size ?spans) 4"
  let ?tp = "build_text_pages ?spans"
  have rej: "line_heading doc ?centers ?tp ((pno, y0), grp) = Inr None"
    using assms(3) by (rule line_level0_rejected)
  from assms(1) obtain hs0 where
    hs0: "collect_headings doc ?centers ?tp (group_lines ?spans) = Inr hs0" and hs: "hs = sort_headings hs0"
    by (auto simp: sorted_headings_def Let_def split: sum.splits)
  have "(h_page h, h_y h) \<noteq> (pno + 1, y0)" if "h \<in> set hs" for h
  proof
    assume eq: "(h_page h, h_y h) = (pno + 1, y0)"
    from that hs have "h \<in> set hs0" by (simp add: set_sort_headings)
    from collect_headings_mem[OF hs0 this] obtain p' y' g' where
      mem: "((p', y'), g') \<in> set (group_lines ?spans)"
      and lh: "line_heading doc ?centers ?tp ((p', y'), g') = Inr (Some h)"
      by auto
    from line_heading_SomeD[OF lh] have "h_page h = p' + 1" and "h_y h = y'" by auto
    with eq have "(p', y') = (pno, y0)" by simp
    with mem assms(2) distinct_group_lines[of ?spans] have "g' = grp"
      by (auto dest: eq_key_imp_eq_value)
    with lh rej \<open>(p', y') = (pno, y0)\<close> show False by simp
  qed
  with rej show ?thesis by blast
qed

theorem level0_line_never_heading_witness:
  "sorted_headings km_distinct doc_styled =
     Inr [\<lparr>h_page = 1, h_y = 150, h_level = ''H2'', h_text = ''Summary ''\<rparr>]
   \<and> ((0, 100),
       [\<lparr>s_pno = 0, s_y0 = 100, s_text = ''Annual'', s_size = 24, s_font = ''Times-Bold'', s_bbox0 = 72\<rparr>,
        \<lparr>s_pno = 0, s_y0 = 100, s_text = ''note'', s_size = 8, s_font = ''Times-BoldItalic'', s_bbox0 = 200\<rparr>])
      \<in> set (group_lines (extract_spans doc_styled))
   \<and> (\<exists>s\<in>set
       [\<lparr>s_pno = 0, s_y0 = 100, s_text = ''Annual'', s_size = 24, s_font = ''Times-Bold'', s_bbox0 = 72\<rparr>,
        \<lparr>s_pno = 0, s_y0 = 100, s_text = ''note'', s_size = 8, s_font = ''Times-BoldItalic'', s_bbox0 = 200\<rparr>].
         map_cluster (s_size s) (cluster_font_sizes km_distinct (map s_size (extract_spans doc_styled)) 4) = Inr 0)
   \<and> list_all (\<lambda>f. contains ''Italic'' f \<or> contains ''Bold'' f) [''Times-Bold'', ''Times-BoldItalic'']
   \<and> line_heading doc_styled (cluster_font_sizes km_distinct (map s_size (extract_spans doc_styled)) 4)
        (build_text_pages (extract_spans doc_styled))
        ((0, 100),
         [\<lparr>s_pno = 0, s_y0 = 100, s_text = ''Annual'', s_size = 24, s_font = ''Times-Bold'', s_bbox0 = 72\<rparr>,
          \<lparr>s_pno = 0, s_y0 = 100, s_text = ''note'', s_size = 8, s_font = ''Times-BoldItalic'', s_bbox0 = 200\<rparr>])
       = Inr None
   \<and> (h_page \<lparr>h_page = 1, h_y = 150, h_level = ''H2'', h_text = ''Summary ''\<rparr>,
        h_y \<lparr>h_page = 1, h_y = 150, h_level = ''H2'', h_text = ''Summary ''\<rparr>) \<noteq> (0 + 1, 100)"
proof -
  let ?grp = "[\<lparr>s_pno = 0, s_y0 = 100, s_text = ''Annual'', s_size = 24, s_font = ''Times-Bold'', s_bbox0 = 72\<rparr>,
        \<lparr>s_pno = 0, s_y0 = 100, s_text = ''note'', s_size = 8, s_font = ''Times-BoldItalic'', s_bbox0 = 200\<rparr>]"
  have a: "sorted_headings km_distinct doc_styled =
     Inr [\<lparr>h_page = 1, h_y = 150, h_level = ''H2'', h_text = ''Summary ''\<rparr>]"
    by code_simp
  have b: "((0, 100), ?grp) \<in> set (group_lines (extract_spans doc_styled))"
    by code_simp
  have c: "\<exists>s\<in>set ?grp.
         map_cluster (s_size s) (cluster_font_sizes km_distinct (map s_size (extract_spans doc_styled)) 4) = Inr 0"
    by code_simp
  have d: "list_all (\<lambda>f. contains ''Italic'' f \<or> contains ''Bold'' f) [''Times-Bold'', ''Times-BoldItalic'']"
    by code_simp
  note t = level0_line_never_heading[OF a b c]
  have e: "(h_page \<lparr>h_page = 1, h_y = 150, h_level = ''H2'', h_text = ''Summary ''\<rparr>,
        h_y \<lparr>h_page = 1, h_y = 150, h_level = ''H2'', h_text = ''Summary ''\<rparr>) \<noteq> (0 + 1, 100)"
    using conjunct2[OF t] by (simp del: heading.simps)
  show ?thesis
    by (intro conjI) (rule a, rule b, rule c, rule d, rule conjunct1[OF t], rule e)
qed

subsection \<open>Documents without spans\<close>

text \<open>
  Claim C7. When \<open>extract_spans\<close> yields no span, \<open>extract_outline\<close> returns the empty title
  and the empty outline; the clustering is not consulted, so every call on the document
  returns this same pair.
\<close>

theorem no_spans_empty_outline:
  assumes "extract_spans doc = []"
  shows "extract_outline km doc = Inr ([], []) \<and> extract_outline km' doc = extract_outline km doc"
  using assms by (simp add: extract_outline_def)

theorem no_spans_empty_outline_witness:
  "extract_spans doc_blank = []
   \<and> extract_outline km_distinct doc_blank = Inr ([], [])
   \<and> extract_outline (\<lambda>n sizes. []) doc_blank = extract_outline km_distinct doc_blank"
proof -
  have a: "extract_spans doc_blank = []" by code_simp
  note t = no_spans_empty_outline[OF a, of km_distinct "\<lambda>n sizes. []"]
  show ?thesis
    by (intro conjI) (rule a, rule conjunct1[OF t], rule conjunct2[OF t])
qed

subsection \<open>The level of a numbered line\<close>

text \<open>
  Claim C1, as the code has it. For a line that the loop body turns into a heading, with
  at most four centers: its font level \<open>max_c\<close> is at least 2 and the base depth is
  \<open>len(centers) - max_c\<close>. When the text is numbered and the base depth is not 1, the label
  is one level shallower than the base depth (the base depth minus one), and otherwise it
  is the base depth. With at most four centers the base depth is 1 or 2, so a numbered
  line is always labelled \<open>H1\<close>.
\<close>

theorem numbered_line_level:
  assumes "line_heading doc centers tp ((pno, y0), grp) = Inr (Some h)" and "length centers \<le> 4"
  shows "\<exists>idxs max_c. map_clusters centers (sort_key s_bbox0 grp) = Inr idxs \<and> py_max idxs = Inr max_c
           \<and> 2 \<le> max_c \<and> max_c < length centers
           \<and> h_level h =
               (if is_numbered (join_space (map s_text (sort_key s_bbox0 grp))) \<and> length centers - max_c \<noteq> 1
                then CHR ''H'' # str_nat (length centers - max_c - 1)
                else CHR ''H'' # str_nat (length centers - max_c))
           \<and> (if is_numbered (join_space (map s_text (sort_key s_bbox0 grp))) then h_level h = ''H1''
               else h_level h = CHR ''H'' # str_nat (length centers - max_c))"
proof -
  let ?text = "join_space (map s_text (sort_key s_bbox0 grp))"
  from line_heading_SomeD[OF assms(1)] obtain idxs max_c where
    idxs: "map_clusters centers (sort_key s_bbox0 grp) = Inr idxs" and m: "py_max idxs = Inr max_c"
    and two: "2 \<le> max_c" and lvl: "assign_level (length centers) max_c ?text = Inr (h_level h)"
    by blast
  have lt: "max_c < length centers"
    using map_clusters_bound[OF idxs py_max_mem[OF m]] .
  with assms(2) have small: "length centers - max_c < 10" by simp
  from lvl assign_level_eq[OF lt small, of ?text]
  have eq: "h_level h =
               (if is_numbered ?text \<and> length centers - max_c \<noteq> 1
                then CHR ''H'' # str_nat (length centers - max_c - 1)
                else CHR ''H'' # str_nat (length centers - max_c))"
    by simp
  have "length centers - max_c = 1 \<or> length centers - max_c = 2"
    using lt two assms(2) by arith
  then have h1: "is_numbered ?text \<Longrightarrow> h_level h = ''H1''"
    using eq by (auto simp: str_nat.simps)
  from idxs m two lt eq h1 show ?thesis by (intro exI conjI) auto
qed

theorem numbered_line_level_witness:
  "line_heading doc_numbered [8, 12, 16, 24] (build_text_pages (extract_spans doc_numbered))
      ((1, 100), [\<lparr>s_pno = 1, s_y0 = 100, s_text = ''1.1 Scope'', s_size = 16, s_font = ''Helvetica'', s_bbox0 = 72\<rparr>])
     = Inr (Some \<lparr>h_page = 2, h_y = 100, h_level = ''H1'', h_text = ''1.1 Scope ''\<rparr>)
   \<and> length [8, 12, 16, 24 :: real] \<le> 4
   \<and> map_clusters [8, 12, 16, 24]
        (sort_key s_bbox0 [\<lparr>s_pno = 1, s_y0 = 100, s_text = ''1.1 Scope'', s_size = 16, s_font = ''Helvetica'', s_bbox0 = 72\<rparr>])
       = Inr [2]
   \<and> py_max [2] = Inr 2
   \<and> is_numbered ''1.1 Scope''
   \<and> CHR ''H'' # str_nat (length [8, 12, 16, 24 :: real] - 2) = ''H2''
   \<and> CHR ''H'' # str_nat (length [8, 12, 16, 24 :: real] - 2 - 1) = ''H1''
   \<and> (\<exists>idxs max_c.
         map_clusters [8, 12, 16, 24]
           (sort_key s_bbox0 [\<lparr>s_pno = 1, s_y0 = 100, s_text = ''1.1 Scope'', s_size = 16, s_font = ''Helvetica'', s_bbox0 = 72\<rparr>])
          = Inr idxs \<and> py_max idxs = Inr max_c \<and> 2 \<le> max_c \<and> max_c < length [8, 12, 16, 24 :: real]
         \<and> h_level \<lparr>h_page = 2, h_y = 100, h_level = ''H1'', h_text = ''1.1 Scope ''\<rparr> =
             CHR ''H'' # str_nat (length [8, 12, 16, 24 :: real] - max_c - 1))"
proof -
  let ?grp = "[\<lparr>s_pno = 1, s_y0 = 100, s_text = ''1.1 Scope'', s_size = 16, s_font = ''Helvetica'', s_bbox0 = 72\<rparr>]"
  let ?h = "\<lparr>h_page = 2, h_y = 100, h_level = ''H1'', h_text = ''1.1 Scope ''\<rparr>"
  have a: "line_heading doc_numbered [8, 12, 16, 24] (build_text_pages (extract_spans doc_numbered))
      ((1, 100), ?grp) = Inr (Some ?h)"
    by code_simp
  have b: "length [8, 12, 16, 24 :: real] \<le> 4" by simp
  have c: "map_clusters [8, 12, 16, 24] (sort_key s_bbox0 ?grp) = Inr [2]" by code_simp
  have d: "py_max [2] = Inr 2" by code_simp
  have e: "is_numbered ''1.1 Scope''" by code_simp
  have f: "CHR ''H'' # str_nat (length [8, 12, 16, 24 :: real] - 2) = ''H2''" by code_simp
  have g: "CHR ''H'' # str_nat (length [8, 12, 16, 24 :: real] - 2 - 1) = ''H1''" by code_simp
  from numbered_line_level[OF a b] obtain idxs max_c where
    t: "map_clusters [8, 12, 16, 24] (sort_key s_bbox0 ?grp) = Inr idxs" "py_max idxs = Inr max_c"
       "2 \<le> max_c" "max_c < length [8, 12, 16, 24 :: real]"
       "h_level ?h =
               (if is_numbered (join_space (map s_text (sort_key s_bbox0 ?grp))) \<and> length [8, 12, 16, 24 :: real] - max_c \<noteq> 1
                then CHR ''H'' # str_nat (length [8, 12, 16, 24 :: real] - max_c - 1)
                else CHR ''H'' # str_nat (length [8, 12, 16, 24 :: real] - max_c))"
    by blast
  from t(1) c have "idxs = [2]" by simp
  with t(2) d have mc: "max_c = 2" by simp
  have n: "is_numbered (join_space (map s_text (sort_key s_bbox0 ?grp)))" by code_simp
  have "h_level ?h = CHR ''H'' # str_nat (length [8, 12, 16, 24 :: real] - max_c - 1)"
    using t(5) n mc by simp
  with t(1-4) have h: "\<exists>idxs max_c.
         map_clusters [8, 12, 16, 24] (sort_key s_bbox0 ?grp) = Inr idxs \<and> py_max idxs = Inr max_c
         \<and> 2 \<le> max_c \<and> max_c < length [8, 12, 16, 24 :: real]
         \<and> h_level ?h = CHR ''H'' # str_nat (length [8, 12, 16, 24 :: real] - max_c - 1)"
    by blast
  show ?thesis
    by (intro conjI) (rule a, rule b, rule c, rule d, rule e, rule f, rule g, rule h)
qed

text \<open>
  The claim as stated fails: the line \<open>1.1 Scope\<close> is set in the second largest of four
  sizes, its base depth is 2, and the label emitted is \<open>H1\<close>, not \<open>H3\<close>.
\<close>

theorem numbered_line_deeper_counterexample:
  "extract_outline km_distinct doc_numbered
     = Inr (''Report'', [\<lparr>o_level = ''H1'', o_text = ''1.1 Scope '', o_page = 2\<rparr>])
   \<and> cluster_font_sizes km_distinct (map s_size (extract_spans doc_numbered)) 4 = [8, 12, 16, 24]
   \<and> map_cluster 16 [8, 12, 16, 24] = Inr 2
   \<and> is_numbered ''1.1 Scope''
   \<and> CHR ''H'' # str_int (int (length [8, 12, 16, 24 :: real]) - int 2) = ''H2''
   \<and> assign_level (length [8, 12, 16, 24 :: real]) 2 ''1.1 Scope'' = Inr ''H1''
   \<and> assign_level (length [8, 12, 16, 24 :: real]) 2 ''1.1 Scope'' \<noteq> Inr ''H3''"
  by code_simp


subsection \<open>Order of the outline\<close>

lemma sorted_fst:
  "sorted (map (\<lambda>h. (f h, g h)) xs) \<Longrightarrow> sorted (map f xs)"
  by (induction xs) (auto simp: less_eq_prod_def)

lemma sorted_sort_headings: "sorted (map (\<lambda>h. (h_page h, h_y h)) (sort_headings hs))"
  by (simp add: sort_headings_def)

lemma sorted_remove_title:
  "sorted (map f hs) \<Longrightarrow> sorted (map f (remove_title hs))"
  by (simp add: remove_title_def Let_def sorted_filter)

lemma map_page_outline: "map o_page (outline_of hs) = map h_page hs"
  by (simp add: outline_of_def)

text \<open>
  The outline is the projection of the collected headings, sorted by page and vertical
  position, with the title headings filtered out; filtering keeps the order, so the
  entries are in ascending order of (page, position) and their pages ascend. This is the
  ordering stated in claim C4. What the claim says of two runs is a statement about the
  clustering library, which is a parameter here.
\<close>

lemma outline_sorted:
  assumes "extract_outline km doc = Inr (title, outline)"
  shows "sorted (map o_page outline)
      \<and> (extract_spans doc = [] \<and> outline = []
         \<or> (\<exists>headings. sorted_headings km doc = Inr headings
              \<and> sorted (map (\<lambda>h. (h_page h, h_y h)) headings)
              \<and> outline = outline_of (remove_title headings)
              \<and> sorted (map (\<lambda>h. (h_page h, h_y h)) (remove_title headings))))"
proof -
  have d: "extract_spans doc = [] \<and> outline = []
         \<or> (\<exists>headings. sorted_headings km doc = Inr headings
              \<and> sorted (map (\<lambda>h. (h_page h, h_y h)) headings)
              \<and> outline = outline_of (remove_title headings)
              \<and> sorted (map (\<lambda>h. (h_page h, h_y h)) (remove_title headings)))"
  proof (cases "extract_spans doc = []")
    case True
    with assms show ?thesis by (simp add: extract_outline_def)
  next
    case False
    with assms obtain headings where hs: "sorted_headings km doc = Inr headings"
      and o: "outline = outline_of (remove_title headings)"
      by (auto simp: extract_outline_def split: sum.splits)
    from hs obtain hs0 where "headings = sort_headings hs0"
      by (auto simp: sorted_headings_def Let_def split: sum.splits)
    then have s: "sorted (map (\<lambda>h. (h_page h, h_y h)) headings)"
      by (simp add: sorted_sort_headings)
    from hs o s sorted_remove_title[OF s] show ?thesis by blast
  qed
  then have "sorted (map o_page outline)"
    by (auto simp: map_page_outline dest: sorted_fst)
  with d show ?thesis by (rule conjI[rotated])
qed

lemma outline_sorted_example:
  "extract_outline km_distinct doc_unordered
     = Inr (''Alpha Beta'', [\<lparr>o_level = ''H1'', o_text = ''Gamma '', o_page = 1\<rparr>,
                            \<lparr>o_level = ''H1'', o_text = ''Delta '', o_page = 1\<rparr>])
   \<and> sorted_headings km_distinct doc_unordered
     = Inr [\<lparr>h_page = 1, h_y = 100, h_level = ''H1'', h_text = ''Alpha ''\<rparr>,
            \<lparr>h_page = 1, h_y = 200, h_level = ''H1'', h_text = ''Beta ''\<rparr>,
            \<lparr>h_page = 1, h_y = 300, h_level = ''H1'', h_text = ''Gamma ''\<rparr>,
            \<lparr>h_page = 1, h_y = 400, h_level = ''H1'', h_text = ''Delta ''\<rparr>]"
  by code_simp

subsection \<open>Title headings and their removal\<close>

lemma title_headings_subset:
  "set (title_headings hs) \<subseteq> {h \<in> set hs. h_page h = 1 \<and> h_level h = ''H1''}"
  unfolding title_headings_def using set_take_subset[of 2 "sort_key h_y (filter (\<lambda>h. h_page h = 1 \<and> h_level h = ''H1'') hs)"]
  by auto

lemma title_headings_sorted: "sorted (map h_y (title_headings hs))"
  unfolding title_headings_def
  by (simp add: take_map[symmetric])

lemma title_headings_first:
  assumes "t \<in> set (title_headings hs)" and "h \<in> set hs" and "h_page h = 1" and "h_level h = ''H1''"
    and "h \<notin> set (title_headings hs)"
  shows "h_y t \<le> h_y h"
proof -
  let ?xs = "sort_key h_y (filter (\<lambda>h. h_page h = 1 \<and> h_level h = ''H1'') hs)"
  have s: "sorted (map h_y (take 2 ?xs) @ map h_y (drop 2 ?xs))"
    unfolding map_append[symmetric] append_take_drop_id by simp
  have u: "set ?xs = set (take 2 ?xs) \<union> set (drop 2 ?xs)"
    unfolding set_append[symmetric] append_take_drop_id ..
  from assms(2-4) have "h \<in> set ?xs" by simp
  with u assms(5) have "h \<in> set (drop 2 ?xs)" by (auto simp: title_headings_def)
  with s assms(1) show ?thesis
    unfolding sorted_append title_headings_def by auto
qed

text \<open>
  Claim C3, as the code has it. The title headings are at most two headings of the list,
  all on page 1 with label \<open>H1\<close>, in ascending vertical position, and no other page-1
  \<open>H1\<close> heading lies above one of them. Removing the title drops every title heading, and
  a heading is dropped exactly when it is on page 1, has label \<open>H1\<close> and has the text of
  some title heading; nothing is added.
\<close>

theorem title_selection_and_removal:
  "length (title_headings hs) \<le> 2
   \<and> (\<forall>t\<in>set (title_headings hs). t \<in> set hs \<and> h_page t = 1 \<and> h_level t = ''H1'')
   \<and> sorted (map h_y (title_headings hs))
   \<and> (\<forall>t\<in>set (title_headings hs). \<forall>h\<in>set hs.
         h_page h = 1 \<and> h_level h = ''H1'' \<and> h \<notin> set (title_headings hs) \<longrightarrow> h_y t \<le> h_y h)
   \<and> (\<forall>t\<in>set (title_headings hs). t \<notin> set (remove_title hs))
   \<and> (\<forall>h\<in>set hs. h \<notin> set (remove_title hs) \<longleftrightarrow>
         h_page h = 1 \<and> h_level h = ''H1'' \<and> (\<exists>t\<in>set (title_headings hs). h_text h = h_text t))
   \<and> set (remove_title hs) \<subseteq> set hs"
proof (intro conjI ballI impI)
  show "length (title_headings hs) \<le> 2" by (simp add: title_headings_def)
  show "sorted (map h_y (title_headings hs))" by (rule title_headings_sorted)
  show "set (remove_title hs) \<subseteq> set hs" by (auto simp: remove_title_def Let_def)
next
  fix t assume "t \<in> set (title_headings hs)"
  then show "t \<in> set hs" "h_page t = 1" "h_level t = ''H1''"
    using title_headings_subset[of hs] by auto
next
  fix t h assume "t \<in> set (title_headings hs)" "h \<in> set hs"
    "h_page h = 1 \<and> h_level h = ''H1'' \<and> h \<notin> set (title_headings hs)"
  then show "h_y t \<le> h_y h" using title_headings_first[of t hs h] by blast
next
  fix t assume t: "t \<in> set (title_headings hs)"
  with title_headings_subset[of hs] have "h_page t = 1" "h_level t = ''H1''" by auto
  with t show "t \<notin> set (remove_title hs)" by (auto simp: remove_title_def Let_def)
next
  fix h assume "h \<in> set hs"
  then show "h \<notin> set (remove_title hs) \<longleftrightarrow>
         h_page h = 1 \<and> h_level h = ''H1'' \<and> (\<exists>t\<in>set (title_headings hs). h_text h = h_text t)"
    by (auto simp: remove_title_def Let_def)
qed

theorem title_selection_and_removal_witness:
  "title_headings
     [\<lparr>h_page = 1, h_y = 100, h_level = ''H1'', h_text = ''Overview ''\<rparr>,
      \<lparr>h_page = 1, h_y = 150, h_level = ''H1'', h_text = ''Plan ''\<rparr>,
      \<lparr>h_page = 1, h_y = 300, h_level = ''H1'', h_text = ''Overview ''\<rparr>,
      \<lparr>h_page = 2, h_y = 100, h_level = ''H1'', h_text = ''Details ''\<rparr>]
     = [\<lparr>h_page = 1, h_y = 100, h_level = ''H1'', h_text = ''Overview ''\<rparr>,
        \<lparr>h_page = 1, h_y = 150, h_level = ''H1'', h_text = ''Plan ''\<rparr>]
   \<and> remove_title
     [\<lparr>h_page = 1, h_y = 100, h_level = ''H1'', h_text = ''Overview ''\<rparr>,
      \<lparr>h_page = 1, h_y = 150, h_level = ''H1'', h_text = ''Plan ''\<rparr>,
      \<lparr>h_page = 1, h_y = 300, h_level = ''H1'', h_text = ''Overview ''\<rparr>,
      \<lparr>h_page = 2, h_y = 100, h_level = ''H1'', h_text = ''Details ''\<rparr>]
     = [\<lparr>h_page = 2, h_y = 100, h_level = ''H1'', h_text = ''Details ''\<rparr>]
   \<and> length (title_headings
     [\<lparr>h_page = 1, h_y = 100, h_level = ''H1'', h_text = ''Overview ''\<rparr>,
      \<lparr>h_page = 1, h_y = 150, h_level = ''H1'', h_text = ''Plan ''\<rparr>,
      \<lparr>h_page = 1, h_y = 300, h_level = ''H1'', h_text = ''Overview ''\<rparr>,
      \<lparr>h_page = 2, h_y = 100, h_level = ''H1'', h_text = ''Details ''\<rparr>]) \<le> 2
   \<and> sorted (map h_y (title_headings
     [\<lparr>h_page = 1, h_y = 100, h_level = ''H1'', h_text = ''Overview ''\<rparr>,
      \<lparr>h_page = 1, h_y = 150, h_level = ''H1'', h_text = ''Plan ''\<rparr>,
      \<lparr>h_page = 1, h_y = 300, h_level = ''H1'', h_text = ''Overview ''\<rparr>,
      \<lparr>h_page = 2, h_y = 100, h_level = ''H1'', h_text = ''Details ''\<rparr>]))
   \<and> set (remove_title
     [\<lparr>h_page = 1, h_y = 100, h_level = ''H1'', h_text = ''Overview ''\<rparr>,
      \<lparr>h_page = 1, h_y = 150, h_level = ''H1'', h_text = ''Plan ''\<rparr>,
      \<lparr>h_page = 1, h_y = 300, h_level = ''H1'', h_text = ''Overview ''\<rparr>,
      \<lparr>h_page = 2, h_y = 100, h_level = ''H1'', h_text = ''Details ''\<rparr>])
     \<subseteq> set [\<lparr>h_page = 1, h_y = 100, h_level = ''H1'', h_text = ''Overview ''\<rparr>,
      \<lparr>h_page = 1, h_y = 150, h_level = ''H1'', h_text = ''Plan ''\<rparr>,
      \<lparr>h_page = 1, h_y = 300, h_level = ''H1'', h_text = ''Overview ''\<rparr>,
      \<lparr>h_page = 2, h_y = 100, h_level = ''H1'', h_text = ''Details ''\<rparr>]"
proof -
  let ?hs = "[\<lparr>h_page = 1, h_y = 100, h_level = ''H1'', h_text = ''Overview ''\<rparr>,
      \<lparr>h_page = 1, h_y = 150, h_level = ''H1'', h_text = ''Plan ''\<rparr>,
      \<lparr>h_page = 1, h_y = 300, h_level = ''H1'', h_text = ''Overview ''\<rparr>,
      \<lparr>h_page = 2, h_y = 100, h_level = ''H1'', h_text = ''Details ''\<rparr>]"
  have a: "title_headings ?hs = [\<lparr>h_page = 1, h_y = 100, h_level = ''H1'', h_text = ''Overview ''\<rparr>,
        \<lparr>h_page = 1, h_y = 150, h_level = ''H1'', h_text = ''Plan ''\<rparr>]"
    by code_simp
  have b: "remove_title ?hs = [\<lparr>h_page = 2, h_y = 100, h_level = ''H1'', h_text = ''Details ''\<rparr>]"
    by code_simp
  note t = title_selection_and_removal[of ?hs]
  from t have c: "length (title_headings ?hs) \<le> 2" by (elim conjE)
  from t have d: "sorted (map h_y (title_headings ?hs))" by (elim conjE)
  from t have e: "set (remove_title ?hs) \<subseteq> set ?hs" by (elim conjE)
  show ?thesis
    by (intro conjI) (rule a, rule b, rule c, rule d, rule e)
qed

text \<open>
  The claim as stated fails: of three page-1 \<open>H1\<close> headings the first two are the title,
  and the third, which is not a title heading, is removed with them because it has the
  text of the first.
\<close>

theorem title_removal_exact_counterexample:
  "sorted_headings km_distinct doc_repeat
     = Inr [\<lparr>h_page = 1, h_y = 100, h_level = ''H1'', h_text = ''Overview ''\<rparr>,
            \<lparr>h_page = 1, h_y = 150, h_level = ''H1'', h_text = ''Plan ''\<rparr>,
            \<lparr>h_page = 1, h_y = 300, h_level = ''H1'', h_text = ''Overview ''\<rparr>]
   \<and> title_headings [\<lparr>h_page = 1, h_y = 100, h_level = ''H1'', h_text = ''Overview ''\<rparr>,
            \<lparr>h_page = 1, h_y = 150, h_level = ''H1'', h_text = ''Plan ''\<rparr>,
            \<lparr>h_page = 1, h_y = 300, h_level = ''H1'', h_text = ''Overview ''\<rparr>]
       = [\<lparr>h_page = 1, h_y = 100, h_level = ''H1'', h_text = ''Overview ''\<rparr>,
          \<lparr>h_page = 1, h_y = 150, h_level = ''H1'', h_text = ''Plan ''\<rparr>]
   \<and> \<lparr>h_page = 1, h_y = 300, h_level = ''H1'', h_text = ''Overview ''\<rparr>
       \<notin> set [\<lparr>h_page = 1, h_y = 100, h_level = ''H1'', h_text = ''Overview ''\<rparr>,
          \<lparr>h_page = 1, h_y = 150, h_level = ''H1'', h_text = ''Plan ''\<rparr>]
   \<and> remove_title [\<lparr>h_page = 1, h_y = 100, h_level = ''H1'', h_text = ''Overview ''\<rparr>,
            \<lparr>h_page = 1, h_y = 150, h_level = ''H1'', h_text = ''Plan ''\<rparr>,
            \<lparr>h_page = 1, h_y = 300, h_level = ''H1'', h_text = ''Overview ''\<rparr>] = []
   \<and> extract_outline km_distinct doc_repeat = Inr (''Overview Plan'', [])"
  by code_simp

subsection \<open>Repeated lines\<close>

text \<open>
  Claim C2, on a document where it fails. The line \<open>Annual Report\<close> is merged from two spans
  and stands on three pages. \<open>text_pages\<close> is keyed by the texts of single spans, so the
  merged text is not a key, its page count is 0, and the three lines become headings:
  the one on page 1 becomes the title and the other two are emitted in the outline.
\<close>

theorem repeated_two_span_line_emitted:
  "map (\<lambda>(k, g). (k, join_space (map s_text (sort_key s_bbox0 g)))) (group_lines (extract_spans doc_running))
     = [((0, 100), ''Annual Report''), ((0, 400), ''Body text here''), ((0, 500), ''footnote''),
        ((1, 100), ''Annual Report''), ((2, 100), ''Annual Report'')]
   \<and> page_count_of (build_text_pages (extract_spans doc_running)) ''Annual Report'' = 0
   \<and> page_count_of (build_text_pages (extract_spans doc_running)) ''Annual'' = 3
   \<and> extract_outline km_distinct doc_running
       = Inr (''Annual Report'',
              [\<lparr>o_level = ''H1'', o_text = ''Annual Report '', o_page = 2\<rparr>,
               \<lparr>o_level = ''H1'', o_text = ''Annual Report '', o_page = 3\<rparr>])"
  by code_simp


subsection \<open>Retention of sections\<close>

text \<open>
  Claim C6, as the code has it. The test of line 95 is \<open>len(s['content']) > 20\<close>: every
  returned section has a body of at least 21 characters, every section with a body of at
  least 21 characters is returned, and a section with a body of 20 characters or fewer is
  not.
\<close>

theorem sections_retained_iff_longer_than_20:
  "(\<forall>s\<in>set (extract_sections doc). 21 \<le> length (sec_content s) \<and> s \<in> set (all_sections doc))
   \<and> (\<forall>s\<in>set (all_sections doc). 21 \<le> length (sec_content s) \<longrightarrow> s \<in> set (extract_sections doc))
   \<and> (\<forall>s\<in>set (all_sections doc). length (sec_content s) \<le> 20 \<longrightarrow> s \<notin> set (extract_sections doc))"
  by (auto simp: extract_sections_def)

theorem sections_retained_iff_longer_than_20_witness:
  "all_sections doc_sections =
     [\<lparr>sec_title = ''Introduction'', sec_page = 1, sec_content = ''This report covers the year.''\<rparr>,
      \<lparr>sec_title = ''SUMMARY:'', sec_page = 1, sec_content = '' Costs rose in 2024. Sales fell. Margins held.''\<rparr>,
      \<lparr>sec_title = ''APPENDIX'', sec_page = 1, sec_content = []\<rparr>]
   \<and> extract_sections doc_sections =
     [\<lparr>sec_title = ''Introduction'', sec_page = 1, sec_content = ''This report covers the year.''\<rparr>,
      \<lparr>sec_title = ''SUMMARY:'', sec_page = 1, sec_content = '' Costs rose in 2024. Sales fell. Margins held.''\<rparr>]
   \<and> 21 \<le> length (sec_content \<lparr>sec_title = ''SUMMARY:'', sec_page = 1,
                       sec_content = '' Costs rose in 2024. Sales fell. Margins held.''\<rparr>)
   \<and> \<lparr>sec_title = ''SUMMARY:'', sec_page = 1, sec_content = '' Costs rose in 2024. Sales fell. Margins held.''\<rparr>
       \<in> set (extract_sections doc_sections)
   \<and> length (sec_content \<lparr>sec_title = ''APPENDIX'', sec_page = 1, sec_content = []\<rparr>) \<le> 20
   \<and> \<lparr>sec_title = ''APPENDIX'', sec_page = 1, sec_content = []\<rparr> \<notin> set (extract_sections doc_sections)"
proof -
  let ?s = "\<lparr>sec_title = ''SUMMARY:'', sec_page = 1, sec_content = '' Costs rose in 2024. Sales fell. Margins held.''\<rparr>"
  let ?a = "\<lparr>sec_title = ''APPENDIX'', sec_page = 1, sec_content = []\<rparr>"
  have all: "all_sections doc_sections =
     [\<lparr>sec_title = ''Introduction'', sec_page = 1, sec_content = ''This report covers the year.''\<rparr>, ?s, ?a]"
    by code_simp
  have ex: "extract_sections doc_sections =
     [\<lparr>sec_title = ''Introduction'', sec_page = 1, sec_content = ''This report covers the year.''\<rparr>, ?s]"
    by code_simp
  have ms: "?s \<in> set (all_sections doc_sections)" and ma: "?a \<in> set (all_sections doc_sections)"
    unfolding all by simp_all
  have ls: "21 \<le> length (sec_content ?s)" by simp
  have la: "length (sec_content ?a) \<le> 20" by simp
  note t = sections_retained_iff_longer_than_20[of doc_sections]
  from t ms ls have rs: "?s \<in> set (extract_sections doc_sections)" by blast
  from t ma la have ra: "?a \<notin> set (extract_sections doc_sections)" by blast
  show ?thesis
    by (intro conjI) (rule all, rule ex, rule ls, rule rs, rule la, rule ra)
qed

text \<open>
  The claim as stated fails: a section whose body has exactly 20 characters is discarded.
\<close>

theorem section_of_length_20_counterexample:
  "all_sections doc_twenty =
     [\<lparr>sec_title = ''SUMMARY:'', sec_page = 1, sec_content = '' Costs rose in 2024.''\<rparr>]
   \<and> length (sec_content \<lparr>sec_title = ''SUMMARY:'', sec_page = 1, sec_content = '' Costs rose in 2024.''\<rparr>) = 20
   \<and> extract_sections doc_twenty = []"
  by code_simp

subsection \<open>The loop and the groups of lines\<close>

lemma body_text_Cons: "body_text (x # xs) = CHR '' '' # clean_text (i_text x) @ body_text xs"
  by (simp add: body_text_def)

lemma body_text_Nil: "body_text [] = []"
  by (simp add: body_text_def)

lemma segment_groups:
  "(case segment secs cur its of (sections, None) \<Rightarrow> sections | (sections, Some c) \<Rightarrow> sections @ [c])
   = (case cur of
        None \<Rightarrow> secs @ introduction_section (fst (title_groups its))
      | Some c \<Rightarrow> secs @ [c\<lparr>sec_content := sec_content c @ body_text (fst (title_groups its))\<rparr>])
     @ map titled_section (snd (title_groups its))"
proof (induction its arbitrary: secs cur)
  case Nil
  then show ?case
    by (cases cur) (simp_all add: introduction_section_def body_text_Nil)
next
  case (Cons x xs)
  obtain lead gs where g: "title_groups xs = (lead, gs)" by (cases "title_groups xs")
  show ?case
  proof (cases "is_title_line (i_text x)")
    case True
    then show ?thesis
      using Cons.IH[of "case cur of None \<Rightarrow> secs | Some c \<Rightarrow> secs @ [c]"
          "Some \<lparr>sec_title = clean_text (i_text x), sec_page = i_p x + 1, sec_content = []\<rparr>"] g
      by (cases cur) (simp_all add: Let_def titled_section_def introduction_section_def body_text_Nil)
  next
    case False
    show ?thesis
    proof (cases cur)
      case None
      with False g show ?thesis
        using Cons.IH[of secs
            "Some \<lparr>sec_title = ''Introduction'', sec_page = i_p x + 1, sec_content = clean_text (i_text x)\<rparr>"]
        by (simp add: Let_def introduction_section_def)
    next
      case (Some c)
      with False g show ?thesis
        using Cons.IH[of secs "Some (c\<lparr>sec_content := sec_content c @ '' '' @ clean_text (i_text x)\<rparr>)"]
        by (simp add: Let_def body_text_Cons)
    qed
  qed
qed

lemma close_sections_groups:
  "close_sections its = introduction_section (fst (title_groups its)) @ map titled_section (snd (title_groups its))"
  unfolding close_sections_def using segment_groups[of "[]" None its] by simp

lemma length_body_text: "length (body_text lines) = (\<Sum>x\<leftarrow>lines. 1 + length (clean_text (i_text x)))"
  by (induction lines) (simp_all add: body_text_Nil body_text_Cons)

lemma strip_prefix: "\<exists>tl. dropWhile is_space s = strip s @ tl"
proof -
  let ?d = "dropWhile is_space s"
  have "rev (takeWhile is_space (rev ?d) @ dropWhile is_space (rev ?d)) = ?d" by simp
  then have "strip s @ rev (takeWhile is_space (rev ?d)) = ?d"
    unfolding rev_append strip_def .
  then show ?thesis by metis
qed

lemma strip_no_leading_space:
  assumes "strip s \<noteq> []"
  shows "\<not> is_space (hd (strip s))"
proof -
  from strip_prefix obtain tl where d: "dropWhile is_space s = strip s @ tl" by blast
  with assms have ne: "dropWhile is_space s \<noteq> []" by auto
  from d assms have "hd (dropWhile is_space s) = hd (strip s)" by simp
  with hd_dropWhile[OF ne] show ?thesis by simp
qed

lemma clean_text_no_leading_space:
  "clean_text t \<noteq> [] \<Longrightarrow> hd (clean_text t) \<noteq> CHR '' ''"
  using strip_no_leading_space[of "collapse_runs (\<lambda>c. \<not> is_kept c) (collapse_runs is_space t)"]
  by (auto simp: clean_text_def Let_def is_space_def)


text \<open>
  Claim C10, as the code has it. The sections built by the loop are the section
  \<open>Introduction\<close> for the leading lines, if any, followed by one section for each title
  line. In a section opened by a title line every appended line is prefixed with one
  space: the body is empty when no line was appended and begins with a space otherwise
  (so it does whenever it exceeds the threshold), and its length counts one separator
  per line. The body of \<open>Introduction\<close> starts with the first line's normalized text, which
  has no leading space; it starts without a space whenever that text is not empty.
\<close>

theorem section_bodies_space_prefixed:
  "all_sections doc
     = introduction_section (fst (title_groups (sorted_items doc)))
       @ map titled_section (snd (title_groups (sorted_items doc)))
   \<and> (\<forall>g\<in>set (snd (title_groups (sorted_items doc))).
         sec_content (titled_section g) = concat (map (\<lambda>x. CHR '' '' # clean_text (i_text x)) (snd g))
       \<and> length (sec_content (titled_section g)) = (\<Sum>x\<leftarrow>snd g. 1 + length (clean_text (i_text x)))
       \<and> (snd g = [] \<longrightarrow> sec_content (titled_section g) = [])
       \<and> (snd g \<noteq> [] \<longrightarrow> starts_with '' '' (sec_content (titled_section g)))
       \<and> (20 < length (sec_content (titled_section g)) \<longrightarrow> starts_with '' '' (sec_content (titled_section g))))
   \<and> (\<forall>s\<in>set (introduction_section (fst (title_groups (sorted_items doc)))).
         sec_title s = ''Introduction''
       \<and> sec_content s = clean_text (i_text (hd (fst (title_groups (sorted_items doc)))))
                          @ body_text (tl (fst (title_groups (sorted_items doc))))
       \<and> (clean_text (i_text (hd (fst (title_groups (sorted_items doc))))) \<noteq> []
            \<longrightarrow> \<not> starts_with '' '' (sec_content s)))"
proof (intro conjI ballI)
  show "all_sections doc
     = introduction_section (fst (title_groups (sorted_items doc)))
       @ map titled_section (snd (title_groups (sorted_items doc)))"
    by (simp add: all_sections_def close_sections_groups)
next
  fix g :: "item \<times> item list"
  show "sec_content (titled_section g) = concat (map (\<lambda>x. CHR '' '' # clean_text (i_text x)) (snd g))"
    by (simp add: titled_section_def body_text_def)
  show "length (sec_content (titled_section g)) = (\<Sum>x\<leftarrow>snd g. 1 + length (clean_text (i_text x)))"
    by (simp add: titled_section_def length_body_text)
  show "snd g = [] \<longrightarrow> sec_content (titled_section g) = []"
    by (simp add: titled_section_def body_text_Nil)
  show ne: "snd g \<noteq> [] \<longrightarrow> starts_with '' '' (sec_content (titled_section g))"
    by (cases "snd g") (simp_all add: titled_section_def body_text_Cons)
  show "20 < length (sec_content (titled_section g)) \<longrightarrow> starts_with '' '' (sec_content (titled_section g))"
    using ne by (cases "snd g") (simp_all add: titled_section_def body_text_Nil)
next
  fix s assume s: "s \<in> set (introduction_section (fst (title_groups (sorted_items doc))))"
  let ?lead = "fst (title_groups (sorted_items doc))"
  from s obtain x others where l: "?lead = x # others"
    and e: "s = \<lparr>sec_title = ''Introduction'', sec_page = i_p x + 1,
                sec_content = clean_text (i_text x) @ body_text others\<rparr>"
    by (cases ?lead) (auto simp: introduction_section_def)
  show "sec_title s = ''Introduction''" using e by simp
  show "sec_content s = clean_text (i_text (hd ?lead)) @ body_text (tl ?lead)" using e l by simp
  show "clean_text (i_text (hd ?lead)) \<noteq> [] \<longrightarrow> \<not> starts_with '' '' (sec_content s)"
  proof
    assume ne: "clean_text (i_text (hd ?lead)) \<noteq> []"
    then obtain c cs where c: "clean_text (i_text x) = c # cs" using l by (cases "clean_text (i_text x)") auto
    with clean_text_no_leading_space[of "i_text x"] have "c \<noteq> CHR '' ''" by simp
    with c e show "\<not> starts_with '' '' (sec_content s)" by simp
  qed
qed

theorem section_bodies_space_prefixed_witness:
  "title_groups (sorted_items doc_sections)
     = ([\<lparr>i_p = 0, i_y = 100, i_text = ''This report covers the year.''\<rparr>],
        [(\<lparr>i_p = 0, i_y = 120, i_text = ''SUMMARY:''\<rparr>,
        [\<lparr>i_p = 0, i_y = 140, i_text = ''Costs rose in 2024. Sales fell.''\<rparr>,
         \<lparr>i_p = 0, i_y = 160, i_text = ''Margins held.''\<rparr>]),
         (\<lparr>i_p = 0, i_y = 180, i_text = ''APPENDIX''\<rparr>, [])])
   \<and> all_sections doc_sections
     = introduction_section (fst (title_groups (sorted_items doc_sections)))
       @ map titled_section (snd (title_groups (sorted_items doc_sections)))
   \<and> (\<lparr>i_p = 0, i_y = 120, i_text = ''SUMMARY:''\<rparr>,
        [\<lparr>i_p = 0, i_y = 140, i_text = ''Costs rose in 2024. Sales fell.''\<rparr>,
         \<lparr>i_p = 0, i_y = 160, i_text = ''Margins held.''\<rparr>]) \<in> set (snd (title_groups (sorted_items doc_sections)))
   \<and> snd (\<lparr>i_p = 0, i_y = 120, i_text = ''SUMMARY:''\<rparr>,
        [\<lparr>i_p = 0, i_y = 140, i_text = ''Costs rose in 2024. Sales fell.''\<rparr>,
         \<lparr>i_p = 0, i_y = 160, i_text = ''Margins held.''\<rparr>]) \<noteq> []
   \<and> sec_content (titled_section (\<lparr>i_p = 0, i_y = 120, i_text = ''SUMMARY:''\<rparr>,
        [\<lparr>i_p = 0, i_y = 140, i_text = ''Costs rose in 2024. Sales fell.''\<rparr>,
         \<lparr>i_p = 0, i_y = 160, i_text = ''Margins held.''\<rparr>])) = '' Costs rose in 2024. Sales fell. Margins held.''
   \<and> starts_with '' '' (sec_content (titled_section (\<lparr>i_p = 0, i_y = 120, i_text = ''SUMMARY:''\<rparr>,
        [\<lparr>i_p = 0, i_y = 140, i_text = ''Costs rose in 2024. Sales fell.''\<rparr>,
         \<lparr>i_p = 0, i_y = 160, i_text = ''Margins held.''\<rparr>])))
   \<and> length (sec_content (titled_section (\<lparr>i_p = 0, i_y = 120, i_text = ''SUMMARY:''\<rparr>,
        [\<lparr>i_p = 0, i_y = 140, i_text = ''Costs rose in 2024. Sales fell.''\<rparr>,
         \<lparr>i_p = 0, i_y = 160, i_text = ''Margins held.''\<rparr>]))) = 46
   \<and> \<lparr>sec_title = ''Introduction'', sec_page = 1, sec_content = ''This report covers the year.''\<rparr> \<in> set (introduction_section (fst (title_groups (sorted_items doc_sections))))
   \<and> clean_text (i_text (hd (fst (title_groups (sorted_items doc_sections))))) \<noteq> []
   \<and> \<not> starts_with '' '' (sec_content \<lparr>sec_title = ''Introduction'', sec_page = 1, sec_content = ''This report covers the year.''\<rparr>)"
proof -
  let ?g = "(\<lparr>i_p = 0, i_y = 120, i_text = ''SUMMARY:''\<rparr>,
        [\<lparr>i_p = 0, i_y = 140, i_text = ''Costs rose in 2024. Sales fell.''\<rparr>,
         \<lparr>i_p = 0, i_y = 160, i_text = ''Margins held.''\<rparr>])"
  let ?intro = "\<lparr>sec_title = ''Introduction'', sec_page = 1, sec_content = ''This report covers the year.''\<rparr>"
  let ?its = "sorted_items doc_sections"
  have tg: "title_groups ?its = ([\<lparr>i_p = 0, i_y = 100, i_text = ''This report covers the year.''\<rparr>], [?g, (\<lparr>i_p = 0, i_y = 180, i_text = ''APPENDIX''\<rparr>, [])])"
    by code_simp
  have mem: "?g \<in> set (snd (title_groups ?its))" unfolding tg by simp
  have ne: "snd ?g \<noteq> []" by simp
  have c: "sec_content (titled_section ?g) = '' Costs rose in 2024. Sales fell. Margins held.''"
    by code_simp
  have im: "?intro \<in> set (introduction_section (fst (title_groups ?its)))"
    unfolding tg by code_simp
  have cn: "clean_text (i_text (hd (fst (title_groups ?its)))) \<noteq> []"
    unfolding tg by code_simp
  note t = section_bodies_space_prefixed[of doc_sections]
  from t have eq: "all_sections doc_sections
     = introduction_section (fst (title_groups ?its)) @ map titled_section (snd (title_groups ?its))"
    by (elim conjE)
  from t mem have
    len: "length (sec_content (titled_section ?g)) = (\<Sum>x\<leftarrow>snd ?g. 1 + length (clean_text (i_text x)))"
    and sp: "snd ?g \<noteq> [] \<longrightarrow> starts_with '' '' (sec_content (titled_section ?g))"
    by blast+
  from sp ne have st: "starts_with '' '' (sec_content (titled_section ?g))" by (rule mp)
  have "(\<Sum>x\<leftarrow>snd ?g. 1 + length (clean_text (i_text x))) = 46" by code_simp
  with len have l46: "length (sec_content (titled_section ?g)) = 46" by simp
  from t im cn have ns: "\<not> starts_with '' '' (sec_content ?intro)" by blast
  show ?thesis
    by (intro conjI) (rule tg, rule eq, rule mem, rule ne, rule c, rule st, rule l46, rule im, rule cn, rule ns)
qed

text \<open>
  The claim as stated fails: the section opened by the title line \<open>APPENDIX\<close> has an empty
  body, which does not begin with a space; and the body of \<open>Introduction\<close> begins with a
  space here, because its first line normalizes to the empty text.
\<close>

theorem titled_section_empty_body_counterexample:
  "all_sections doc_bullet =
     [\<lparr>sec_title = ''Introduction'', sec_page = 1, sec_content = '' Growth was steady all year.''\<rparr>,
      \<lparr>sec_title = ''APPENDIX'', sec_page = 1, sec_content = []\<rparr>]
   \<and> is_title_line ''APPENDIX''
   \<and> \<not> starts_with '' '' (sec_content \<lparr>sec_title = ''APPENDIX'', sec_page = 1, sec_content = []\<rparr>)
   \<and> \<not> is_title_line ''*''
   \<and> starts_with '' '' (sec_content \<lparr>sec_title = ''Introduction'', sec_page = 1,
                                     sec_content = '' Growth was steady all year.''\<rparr>)"
  by code_simp


subsection \<open>Excerpts\<close>

lemma split_from_skip_first:
  "split_from True cs = q # rest \<Longrightarrow> (q \<noteq> [] \<longrightarrow> hd q \<noteq> CHR '' '') \<and> (q = [] \<longrightarrow> rest = [])"
proof (induction cs arbitrary: q rest)
  case Nil
  then show ?case by simp
next
  case (Cons c cs)
  then show ?case
    by (cases "split_from False cs") (auto split: if_splits)
qed

lemma split_from_first:
  "split_from False cs = p # ps \<Longrightarrow> (cs = [] \<longrightarrow> p = []) \<and> (cs \<noteq> [] \<longrightarrow> p \<noteq> [] \<and> hd p = hd cs)"
  by (cases cs; cases "split_from False (tl cs)") (auto split: if_splits)

lemma split_from_nonempty: "split_from b s \<noteq> []"
  by (induction b s rule: split_from.induct) (auto split: list.splits)

lemma pieces_ok_split_from: "pieces_ok (split_from b s)"
proof (induction b s rule: split_from.induct)
  case (1 skip)
  then show ?case by simp
next
  case (2 skip c cs)
  show ?case
  proof (cases "skip \<and> c = CHR '' ''")
    case True
    with 2 show ?thesis by simp
  next
    case ns: False
    show ?thesis
    proof (cases "c \<in> set ''.!?'' \<and> cs \<noteq> [] \<and> hd cs = CHR '' ''")
      case True
      obtain q rest where qr: "split_from True cs = q # rest"
        using split_from_nonempty[of True cs] by (cases "split_from True cs") auto
      from 2(2)[OF ns True] qr have "pieces_ok (q # rest)" by simp
      with split_from_skip_first[OF qr] ns True qr show ?thesis by simp
    next
      case False
      obtain p ps where pp: "split_from False cs = p # ps"
        using split_from_nonempty[of False cs] by (cases "split_from False cs") auto
      from 2(3)[OF ns False] pp have ok: "pieces_ok (p # ps)" by simp
      have nb: "no_break (c # p)"
        using ok False split_from_first[OF pp] by (cases ps) auto
      have "pieces_ok ((c # p) # ps)"
      proof (cases ps)
        case Nil
        with nb show ?thesis by simp
      next
        case (Cons q rest)
        with ok nb show ?thesis by auto
      qed
      moreover have "split_from skip (c # cs) = (c # p) # ps"
        using ns False pp by auto
      ultimately show ?thesis by (simp only:)
    qed
  qed
qed

lemma split_from_no_break: "no_break p \<Longrightarrow> split_from False p = [p]"
  by (induction p) auto

lemma split_from_skip_eq: "X = [] \<or> hd X \<noteq> CHR '' '' \<Longrightarrow> split_from True X = split_from False X"
  by (cases X) auto

lemma split_from_piece_then_space:
  "no_break p \<Longrightarrow> p \<noteq> [] \<Longrightarrow> last p \<in> set ''.!?'' \<Longrightarrow>
   split_from False (p @ CHR '' '' # X) = p # split_from True X"
proof (induction p)
  case Nil
  then show ?case by simp
next
  case (Cons c r)
  show ?case
  proof (cases r)
    case Nil
    with Cons.prems show ?thesis by auto
  next
    case (Cons d r')
    with Cons.prems Cons.IH show ?thesis by auto
  qed
qed

lemma join_space_head:
  "join_space (q # rest) = [] \<or> hd (join_space (q # rest)) \<noteq> CHR '' ''"
  if "q = [] \<longrightarrow> rest = []" and "q \<noteq> [] \<longrightarrow> hd q \<noteq> CHR '' ''"
  using that by (cases rest; cases q) auto

lemma resplit_pieces: "pieces_ok ps \<Longrightarrow> split_from False (join_space ps) = ps"
proof (induction ps rule: pieces_ok.induct)
  case 1
  then show ?case by simp
next
  case (2 p)
  then show ?case by (simp add: split_from_no_break)
next
  case (3 p q rest)
  then have p: "no_break p" "p \<noteq> []" "last p \<in> set ''.!?''"
    and q: "q = [] \<longrightarrow> rest = []" "q \<noteq> [] \<longrightarrow> hd q \<noteq> CHR '' ''"
    and ok: "pieces_ok (q # rest)" by simp_all
  have "split_from False (join_space (p # q # rest)) = p # split_from True (join_space (q # rest))"
    using split_from_piece_then_space[OF p] by simp
  also have "split_from True (join_space (q # rest)) = split_from False (join_space (q # rest))"
    by (rule split_from_skip_eq) (rule join_space_head[OF q])
  also have "\<dots> = q # rest" using 3 ok by simp
  finally show ?case .
qed

lemma pieces_ok_take: "pieces_ok ps \<Longrightarrow> 0 < n \<Longrightarrow> pieces_ok (take n ps)"
proof (induction ps arbitrary: n rule: pieces_ok.induct)
  case 1
  then show ?case by simp
next
  case (2 p)
  then show ?case by (cases n) simp_all
next
  case (3 p q rest)
  show ?case
  proof (cases n)
    case 0
    with 3 show ?thesis by simp
  next
    case (Suc m)
    show ?thesis
    proof (cases m)
      case 0
      with Suc 3 show ?thesis by simp
    next
      case (Suc k)
      have "pieces_ok (take (Suc k) (q # rest))" using 3(1)[of "Suc k"] 3(2) by simp
      then have a: "pieces_ok (q # take k rest)" by simp
      have "take n (p # q # rest) = p # q # take k rest"
        using \<open>n = Suc m\<close> Suc by simp
      with a 3(2) show ?thesis by auto
    qed
  qed
qed

lemma resplit_first_sentences:
  "0 < n \<Longrightarrow> split_sentences (join_space (take n (split_sentences s))) = take n (split_sentences s)"
  unfolding split_sentences_def
  by (intro resplit_pieces pieces_ok_take pieces_ok_split_from)

text \<open>
  Claim C8. \<open>extract_subsections\<close> returns one excerpt for each of the first \<open>max_subs\<close>
  ranked sections (5 by default) and for no other, in order, with the section's document
  and page. The refined text is the first three pieces of the body split after
  \<open>.\<close>, \<open>!\<close> or \<open>?\<close> followed by spaces (all of them when there are fewer), joined with one
  space; split again, it gives back exactly these pieces, so it holds at most three
  sentences.
\<close>

theorem excerpts_top_m_first_three_sentences:
  "length (extract_subsections self ranked) = min (max_subs self) (length ranked)
   \<and> (\<forall>i<length (extract_subsections self ranked).
         i < max_subs self \<and> i < length ranked
       \<and> e_document (extract_subsections self ranked ! i) = sec_document (ranked ! i)
       \<and> e_page_number (extract_subsections self ranked ! i) = sec_page (ranked ! i)
       \<and> e_refined_text (extract_subsections self ranked ! i)
           = join_space (take 3 (split_sentences (sec_content (ranked ! i))))
       \<and> length (take 3 (split_sentences (sec_content (ranked ! i)))) \<le> 3
       \<and> split_sentences (e_refined_text (extract_subsections self ranked ! i))
           = take 3 (split_sentences (sec_content (ranked ! i))))
   \<and> max_subs default_analyzer = 5"
  by (simp add: extract_subsections_def default_analyzer_def Let_def resplit_first_sentences)

theorem excerpts_top_m_first_three_sentences_witness:
  "length ranked_example = 6
   \<and> extract_subsections default_analyzer ranked_example =
       [\<lparr>e_document = ''report.pdf'', e_refined_text = '' Costs rose in 2024. Sales fell. Margins held!'',
         e_page_number = 1\<rparr>,
        \<lparr>e_document = ''report.pdf'', e_refined_text = ''This report covers the year.'', e_page_number = 1\<rparr>,
        \<lparr>e_document = ''survey.pdf'', e_refined_text = '' We asked. They answered? Yes.'', e_page_number = 2\<rparr>,
        \<lparr>e_document = ''survey.pdf'', e_refined_text = '' Numbers went up and then down'', e_page_number = 3\<rparr>,
        \<lparr>e_document = ''survey.pdf'', e_refined_text = '' Figures are in thousands. '', e_page_number = 4\<rparr>]
   \<and> length (extract_subsections default_analyzer ranked_example) = min 5 6
   \<and> (0::nat) < length (extract_subsections default_analyzer ranked_example)
   \<and> split_sentences (sec_content (ranked_example ! 0))
       = ['' Costs rose in 2024.'', ''Sales fell.'', ''Margins held!'', ''Staff grew.'', ''More followed.'']
   \<and> split_sentences (e_refined_text (extract_subsections default_analyzer ranked_example ! 0))
       = take 3 (split_sentences (sec_content (ranked_example ! 0)))"
proof -
  have n: "length ranked_example = 6" by code_simp
  have v: "extract_subsections default_analyzer ranked_example =
       [\<lparr>e_document = ''report.pdf'', e_refined_text = '' Costs rose in 2024. Sales fell. Margins held!'',
         e_page_number = 1\<rparr>,
        \<lparr>e_document = ''report.pdf'', e_refined_text = ''This report covers the year.'', e_page_number = 1\<rparr>,
        \<lparr>e_document = ''survey.pdf'', e_refined_text = '' We asked. They answered? Yes.'', e_page_number = 2\<rparr>,
        \<lparr>e_document = ''survey.pdf'', e_refined_text = '' Numbers went up and then down'', e_page_number = 3\<rparr>,
        \<lparr>e_document = ''survey.pdf'', e_refined_text = '' Figures are in thousands. '', e_page_number = 4\<rparr>]"
    by code_simp
  have s: "split_sentences (sec_content (ranked_example ! 0))
       = ['' Costs rose in 2024.'', ''Sales fell.'', ''Margins held!'', ''Staff grew.'', ''More followed.'']"
    by code_simp
  have p: "(0::nat) < length (extract_subsections default_analyzer ranked_example)"
    unfolding v by simp
  note t = excerpts_top_m_first_three_sentences[of default_analyzer ranked_example]
  have l: "length (extract_subsections default_analyzer ranked_example) = min 5 6"
    using t[THEN conjunct1] t[THEN conjunct2, THEN conjunct2] n by simp
  note ti = t[THEN conjunct2, THEN conjunct1, rule_format, OF p]
  have r: "split_sentences (e_refined_text (extract_subsections default_analyzer ranked_example ! 0))
       = take 3 (split_sentences (sec_content (ranked_example ! 0)))"
    using ti by (elim conjE)
  show ?thesis
    by (intro conjI) (rule n, rule v, rule l, rule p, rule s, rule r)
qed


end
